theory Spec2Isabelle
  imports Complex_Main "HOL-Library.Sublist" "HOL-Library.Log_Nat"
begin

section \<open>The invoice calculator of \<^verbatim>\<open>src/invioce_service.py\<close>\<close>

text \<open>
  The module is one class, \<^verbatim>\<open>InvoiceService\<close>, over two dataclasses. Its functions
  are embedded one by one, under their own names (without Python's leading underscore,
  which an Isabelle name cannot start with). The parameter \<^verbatim>\<open>inv\<close> of the source is
  written \<open>invoice\<close>, and \<open>inv_opt\<close> where it may still be \<^verbatim>\<open>None\<close>.

  Numbers. The source computes with Python numbers: \<^verbatim>\<open>qty\<close> is an \<^verbatim>\<open>int\<close>, prices and
  all amounts are \<^verbatim>\<open>float\<close>s (or \<^verbatim>\<open>int\<close>s, which Python mixes freely with them). The
  calculation is embedded twice. The first embedding takes \<^typ>\<open>int\<close> for quantities and
  \<^typ>\<open>real\<close> for every amount, with exact arithmetic: the rounding of binary64, its
  infinities and its NaN are outside of it. It carries the statements on validation,
  rates, thresholds, warnings and lookups. The second embedding, of the functions named
  \<open>_f64\<close>, computes with the numbers of the interpreter (an unbounded \<^verbatim>\<open>int\<close> or a binary64
  \<^verbatim>\<open>float\<close>, rounded after each operation); it carries the statement on the sign of the
  total, which overflow decides.

  Strings. A Python string is embedded as a \<^typ>\<open>string\<close>, each \<^typ>\<open>char\<close> standing for
  the code point of the same number (so code points below 256).
\<close>


subsection \<open>Data model\<close>

record LineItem =
  sku :: string
  category :: string
  unit_price :: real
  qty :: int
  fragile :: bool

record Invoice =
  invoice_id :: string
  customer_id :: string
  country :: string
  membership :: string
  coupon :: "string option"
  items :: "LineItem list"

text \<open>
  The exceptions the code can raise. \<^verbatim>\<open>ValueError\<close> is raised by the validation;
  \<^verbatim>\<open>KeyError\<close> is what a subscript \<^verbatim>\<open>d[k]\<close> raises at a missing key,
  \<^verbatim>\<open>AttributeError\<close> what \<^verbatim>\<open>inv.items\<close> raises at \<^verbatim>\<open>None\<close>, and \<^verbatim>\<open>OverflowError\<close> what
  the arithmetic raises when an \<^verbatim>\<open>int\<close> too large for a \<^verbatim>\<open>float\<close> meets a \<^verbatim>\<open>float\<close>.
\<close>


datatype error =
  ValueError string | KeyError string | AttributeError string | OverflowError string

subsection \<open>Dictionaries and strings of Python\<close>

text \<open>\<^verbatim>\<open>d[k]\<close>: the value at the key, or a \<^verbatim>\<open>KeyError\<close>.\<close>

definition dict_getitem :: "(string \<rightharpoonup> 'v) \<Rightarrow> string \<Rightarrow> error + 'v" where
  "dict_getitem d k = (case d k of None \<Rightarrow> Inl (KeyError k) | Some v \<Rightarrow> Inr v)"

text \<open>\<^verbatim>\<open>d.get(k, default)\<close>.\<close>

definition dict_get :: "(string \<rightharpoonup> 'v) \<Rightarrow> string \<Rightarrow> 'v \<Rightarrow> 'v" where
  "dict_get d k dflt = (case d k of None \<Rightarrow> dflt | Some v \<Rightarrow> v)"

text \<open>\<^verbatim>\<open>sep.join(xs)\<close>.\<close>

fun join :: "string \<Rightarrow> string list \<Rightarrow> string" where
  "join sep [] = []"
| "join sep [x] = x"
| "join sep (x # y # ys) = x @ sep @ join sep (y # ys)"

text \<open>
  \<^verbatim>\<open>str.isspace\<close> on one character, for the code points below 256: U+0009 to U+000D,
  U+001C to U+001F, the space, U+0085 and U+00A0.
\<close>

definition is_space :: "char \<Rightarrow> bool" where
  "is_space c \<longleftrightarrow> c \<in> set [CHR 0x09, CHR 0x0A, CHR 0x0B, CHR 0x0C, CHR 0x0D,
     CHR 0x1C, CHR 0x1D, CHR 0x1E, CHR 0x1F, CHR 0x20, CHR 0x85, CHR 0xA0]"

text \<open>\<^verbatim>\<open>s.strip()\<close>: the whitespace at both ends is removed.\<close>

definition strip :: "string \<Rightarrow> string" where
  "strip s = rev (dropWhile is_space (rev (dropWhile is_space s)))"

subsection \<open>The rate tables\<close>

definition SHIPPING_RULES :: "string \<rightharpoonup> (real \<Rightarrow> real)" where
  "SHIPPING_RULES = [
     ''TH'' \<mapsto> (\<lambda>subtotal. if subtotal < 500 then 60 else 0),
     ''JP'' \<mapsto> (\<lambda>subtotal. if subtotal < 4000 then 600 else 0),
     ''US'' \<mapsto> (\<lambda>subtotal. if subtotal < 100 then 15 else (if subtotal < 300 then 8 else 0)),
     ''DEFAULT'' \<mapsto> (\<lambda>subtotal. if subtotal < 200 then 25 else 0)]"

definition TAX_RATE :: "string \<rightharpoonup> real" where
  "TAX_RATE = [''TH'' \<mapsto> 7 / 100, ''JP'' \<mapsto> 10 / 100, ''US'' \<mapsto> 8 / 100,
     ''DEFAULT'' \<mapsto> 5 / 100]"

definition MEMBERSHIP_DISCOUNT :: "string \<rightharpoonup> real" where
  "MEMBERSHIP_DISCOUNT = [''gold'' \<mapsto> 3 / 100, ''platinum'' \<mapsto> 5 / 100]"

definition COUPON_RATE :: "string \<rightharpoonup> real" where
  "COUPON_RATE = [''WELCOME10'' \<mapsto> 10 / 100, ''VIP20'' \<mapsto> 20 / 100,
     ''STUDENT5'' \<mapsto> 5 / 100]"

definition VALID_CATEGORIES :: "string set" where
  "VALID_CATEGORIES = {''book'', ''food'', ''electronics'', ''other''}"

subsection \<open>Validation\<close>

text \<open>
  The body of the loop over the items: the four checks of one item, each appending its
  message to the list of problems found so far.
\<close>

definition validate_item :: "string list \<Rightarrow> LineItem \<Rightarrow> string list" where
  "validate_item problems item =
     (let problems = (if sku item = [] then problems @ [''Item sku is missing''] else problems);
          problems = (if qty item \<le> 0
                      then problems @ [''Invalid qty for '' @ sku item] else problems);
          problems = (if unit_price item < 0
                      then problems @ [''Invalid price for '' @ sku item] else problems);
          problems = (if category item \<notin> VALID_CATEGORIES
                      then problems @ [''Unknown category for '' @ sku item] else problems)
      in problems)"

text \<open>
  \<^verbatim>\<open>_validate\<close>: \<^verbatim>\<open>None\<close> is refused at once; otherwise the problems are collected, the
  fields of the invoice first, then item by item, and raised together when there are any.
\<close>

definition validate :: "Invoice option \<Rightarrow> error + unit" where
  "validate inv_opt =
     (case inv_opt of
        None \<Rightarrow> Inl (ValueError ''Invoice is missing'')
      | Some invoice \<Rightarrow>
          (let problems = [];
               problems = (if invoice_id invoice = []
                           then problems @ [''Missing invoice_id''] else problems);
               problems = (if customer_id invoice = []
                           then problems @ [''Missing customer_id''] else problems);
               problems = (if items invoice = []
                           then problems @ [''Invoice must contain items''] else problems);
               problems = foldl validate_item problems (items invoice)
           in if problems \<noteq> [] then Inl (ValueError (join ''; '' problems)) else Inr ()))"

subsection \<open>Calculation helpers\<close>

definition calculate_subtotal :: "LineItem list \<Rightarrow> real \<times> real" where
  "calculate_subtotal its =
     (let subtotal = (\<Sum>i\<leftarrow>its. unit_price i * of_int (qty i));
          fragile_fee = (\<Sum>i\<leftarrow>filter fragile its. 5 * of_int (qty i))
      in (subtotal, fragile_fee))"

definition calculate_shipping :: "string \<Rightarrow> real \<Rightarrow> error + real" where
  "calculate_shipping cntry subtotal =
     (case dict_getitem SHIPPING_RULES ''DEFAULT'' of
        Inl e \<Rightarrow> Inl e
      | Inr dflt \<Rightarrow> (let rule = dict_get SHIPPING_RULES cntry dflt in Inr (rule subtotal)))"

text \<open>
  \<^verbatim>\<open>_calculate_discount\<close>. \<^verbatim>\<open>if inv.coupon:\<close> is false both at \<^verbatim>\<open>None\<close> and at the
  empty string.
\<close>

definition calculate_discount :: "Invoice \<Rightarrow> real \<Rightarrow> real \<times> string list" where
  "calculate_discount invoice subtotal =
     (let warnings = [];
          discount = 0;
          discount = (case MEMBERSHIP_DISCOUNT (membership invoice) of
                        Some r \<Rightarrow> discount + subtotal * r
                      | None \<Rightarrow> if subtotal > 3000 then discount + 20 else discount)
      in case coupon invoice of
           None \<Rightarrow> (discount, warnings)
         | Some c \<Rightarrow>
             if c = [] then (discount, warnings)
             else (let code = strip c
                   in case COUPON_RATE code of
                        Some r \<Rightarrow> (discount + subtotal * r, warnings)
                      | None \<Rightarrow> (discount, warnings @ [''Unknown coupon''])))"

definition calculate_tax :: "string \<Rightarrow> real \<Rightarrow> error + real" where
  "calculate_tax cntry taxable_amount =
     (case dict_getitem TAX_RATE ''DEFAULT'' of
        Inl e \<Rightarrow> Inl e
      | Inr dflt \<Rightarrow> (let rate = dict_get TAX_RATE cntry dflt in Inr (taxable_amount * rate)))"

subsection \<open>The public function\<close>

text \<open>
  \<^verbatim>\<open>compute_total\<close>: the result is the error raised, or the pair of the total and the
  warnings.
\<close>

definition compute_total :: "Invoice option \<Rightarrow> error + (real \<times> string list)" where
  "compute_total inv_opt =
     (case validate inv_opt of
        Inl e \<Rightarrow> Inl e
      | Inr _ \<Rightarrow>
     (case inv_opt of
        None \<Rightarrow> Inl (AttributeError ''items'')
      | Some invoice \<Rightarrow>
     (case calculate_subtotal (items invoice) of (subtotal, fragile_fee) \<Rightarrow>
     (case calculate_shipping (country invoice) subtotal of
        Inl e \<Rightarrow> Inl e
      | Inr shipping \<Rightarrow>
     (case calculate_discount invoice subtotal of (discount, warnings) \<Rightarrow>
     (case calculate_tax (country invoice) (subtotal - discount) of
        Inl e \<Rightarrow> Inl e
      | Inr tax \<Rightarrow>
          (let total = subtotal + shipping + fragile_fee + tax - discount;
               total = (if total < 0 then 0 else total);
               warnings = (if subtotal > 10000 \<and> MEMBERSHIP_DISCOUNT (membership invoice) = None
                           then warnings @ [''Consider membership upgrade''] else warnings)
           in Inr (total, warnings))))))))"

section \<open>Reference descriptions and sample invoices\<close>

subsection \<open>The defects of an invoice, as the specification lists them\<close>

text \<open>
  The specification names the defects that make an invoice invalid: the invoice is absent,
  \<^verbatim>\<open>invoice_id\<close> or \<^verbatim>\<open>customer_id\<close> is empty, there is no item, or some item has an
  empty \<^verbatim>\<open>sku\<close>, a \<^verbatim>\<open>qty\<close> \<open>\<le> 0\<close>, a negative \<^verbatim>\<open>unit_price\<close> or a category outside
  book, food, electronics, other. The definitions below follow that list (they are not the
  code: \<^const>\<open>validate\<close> is); each defect comes with the message that reports it.
\<close>

definition item_defects :: "LineItem \<Rightarrow> string list" where
  "item_defects item =
     (if sku item = [] then [''Item sku is missing''] else []) @
     (if qty item \<le> 0 then [''Invalid qty for '' @ sku item] else []) @
     (if unit_price item < 0 then [''Invalid price for '' @ sku item] else []) @
     (if category item \<notin> {''book'', ''food'', ''electronics'', ''other''}
      then [''Unknown category for '' @ sku item] else [])"

definition field_defects :: "Invoice \<Rightarrow> string list" where
  "field_defects invoice =
     (if invoice_id invoice = [] then [''Missing invoice_id''] else []) @
     (if customer_id invoice = [] then [''Missing customer_id''] else []) @
     (if items invoice = [] then [''Invoice must contain items''] else [])"

definition all_defects :: "Invoice option \<Rightarrow> string list" where
  "all_defects inv_opt =
     (case inv_opt of
        None \<Rightarrow> [''Invoice is missing'']
      | Some invoice \<Rightarrow> field_defects invoice @ concat (map item_defects (items invoice)))"

definition invalid_item :: "LineItem \<Rightarrow> bool" where
  "invalid_item item \<longleftrightarrow>
     sku item = [] \<or> qty item \<le> 0 \<or> unit_price item < 0 \<or>
     category item \<notin> {''book'', ''food'', ''electronics'', ''other''}"

definition invalid_invoice :: "Invoice option \<Rightarrow> bool" where
  "invalid_invoice inv_opt =
     (case inv_opt of
        None \<Rightarrow> True
      | Some invoice \<Rightarrow>
          invoice_id invoice = [] \<or> customer_id invoice = [] \<or> items invoice = [] \<or>
          list_ex invalid_item (items invoice))"

subsection \<open>Strings that differ only in letter case\<close>

text \<open>
  The code has no notion of letter case. To say that a lookup is case-sensitive, two strings
  differ only in case when they are different and equal once every letter \<open>A\<close> to \<open>Z\<close> is
  replaced by its lower-case letter; \<^term>\<open>ascii_lower c\<close> is the code point of \<open>c\<close> after
  that replacement.
\<close>

definition ascii_lower :: "char \<Rightarrow> nat" where
  "ascii_lower c =
     (let n = (of_char c :: nat) in if 65 \<le> n \<and> n \<le> 90 then n + 32 else n)"

definition differs_only_in_case :: "string \<Rightarrow> string \<Rightarrow> bool" where
  "differs_only_in_case s k \<longleftrightarrow> s \<noteq> k \<and> map ascii_lower s = map ascii_lower k"

subsection \<open>Sample invoices\<close>

definition example_item :: LineItem where
  "example_item = \<lparr>sku = ''A'', category = ''book'', unit_price = 100, qty = 2, fragile = True\<rparr>"

definition example_invoice :: Invoice where
  "example_invoice = \<lparr>invoice_id = ''INV-1'', customer_id = ''CUST-1'', country = ''TH'',
     membership = '''', coupon = None, items = [example_item]\<rparr>"

text \<open>An invoice of one sound item, of the given price: its subtotal is that price.\<close>

definition simple_item :: "real \<Rightarrow> LineItem" where
  "simple_item price =
     \<lparr>sku = ''B'', category = ''other'', unit_price = price, qty = 1, fragile = False\<rparr>"

definition simple_invoice :: "string \<Rightarrow> string \<Rightarrow> string option \<Rightarrow> real \<Rightarrow> Invoice" where
  "simple_invoice cntry mship cpn price = \<lparr>invoice_id = ''INV-2'', customer_id = ''CUST-2'',
     country = cntry, membership = mship, coupon = cpn, items = [simple_item price]\<rparr>"

text \<open>An invoice with five defects: one in its fields, two in its first item, two in its last.\<close>

definition broken_invoice :: Invoice where
  "broken_invoice = \<lparr>invoice_id = '''', customer_id = ''CUST-3'', country = ''JP'',
     membership = ''gold'', coupon = None,
     items = [\<lparr>sku = ''A'', category = ''book'', unit_price = - 1, qty = 0, fragile = False\<rparr>,
              \<lparr>sku = ''B'', category = ''food'', unit_price = 2, qty = 1, fragile = False\<rparr>,
              \<lparr>sku = '''', category = ''toy'', unit_price = 3, qty = 1, fragile = True\<rparr>]\<rparr>"

section \<open>The calculation over the numbers of Python\<close>

text \<open>
  Whether the total can fail to be a non-negative number is decided by what the exact
  numbers above leave out: a product too large for a \<^verbatim>\<open>float\<close> becomes \<^verbatim>\<open>inf\<close>, the
  difference of two \<^verbatim>\<open>inf\<close> is \<^verbatim>\<open>nan\<close>, every comparison with \<^verbatim>\<open>nan\<close> is false, and an
  \<^verbatim>\<open>int\<close> too large to become a \<^verbatim>\<open>float\<close> raises \<^verbatim>\<open>OverflowError\<close>. For that question the
  calculating functions are embedded a second time, with the suffix \<open>_f64\<close>, over the
  numbers the interpreter computes with. The invoice and its validation are the ones above:
  the \<^verbatim>\<open>unit_price\<close> of an item is taken to be a finite \<^verbatim>\<open>float\<close>, given by its value, and
  on finite prices the comparison of the validation is exact.
\<close>

subsection \<open>binary64\<close>

text \<open>
  A \<^verbatim>\<open>float\<close> is a finite number (given by its value; the sign of a zero is not kept,
  no operation of the module tells \<^verbatim>\<open>-0.0\<close> from \<^verbatim>\<open>0.0\<close>), an infinity or \<^verbatim>\<open>nan\<close>.
\<close>

datatype double = Fin real | PInf | NInf | NaN

text \<open>Rounding to the nearest integer, a tie to the even one.\<close>

definition round_half_even :: "real \<Rightarrow> int" where
  "round_half_even x =
     (let n = \<lfloor>x\<rfloor>; r = x - of_int n
      in if r < 1 / 2 then n else if 1 / 2 < r then n + 1 else if even n then n else n + 1)"

text \<open>
  The binary exponent of a positive number: \<open>2 powi exponent x \<le> x < 2 powi (exponent x + 1)\<close>
  (lemma \<open>exponent_bounds\<close> below), computed from the bit length of an integer.
\<close>

definition exponent :: "real \<Rightarrow> int" where
  "exponent x = (if 1 \<le> x then bitlen \<lfloor>x\<rfloor> - 1 else - bitlen (\<lceil>1 / x\<rceil> - 1))"

text \<open>
  The \<^verbatim>\<open>float\<close> of an exact result, as every operation of binary64 delivers it: the
  nearest multiple of the unit in the last place (53 significant bits, the exponent not
  below -1022), a tie to the even multiple, and an infinity when that is \<open>2 ^ 1024\<close> or
  beyond.
\<close>

definition round64 :: "real \<Rightarrow> double" where
  "round64 x =
     (if x = 0 then Fin 0
      else (let k = max (exponent \<bar>x\<bar>) (- 1022) - 52;
                y = of_int (round_half_even (x / 2 powi k)) * 2 powi k
            in if 2 ^ 1024 \<le> y then PInf else if y \<le> - (2 ^ 1024) then NInf else Fin y))"

fun fneg :: "double \<Rightarrow> double" where
  "fneg (Fin x) = Fin (- x)"
| "fneg PInf = NInf"
| "fneg NInf = PInf"
| "fneg NaN = NaN"

fun fadd :: "double \<Rightarrow> double \<Rightarrow> double" where
  "fadd (Fin x) (Fin y) = round64 (x + y)"
| "fadd NaN _ = NaN"
| "fadd _ NaN = NaN"
| "fadd PInf NInf = NaN"
| "fadd NInf PInf = NaN"
| "fadd PInf _ = PInf"
| "fadd _ PInf = PInf"
| "fadd NInf _ = NInf"
| "fadd _ NInf = NInf"

definition fsub :: "double \<Rightarrow> double \<Rightarrow> double" where
  "fsub a b = fadd a (fneg b)"

fun fmul :: "double \<Rightarrow> double \<Rightarrow> double" where
  "fmul (Fin x) (Fin y) = round64 (x * y)"
| "fmul NaN _ = NaN"
| "fmul _ NaN = NaN"
| "fmul (Fin x) PInf = (if x = 0 then NaN else if 0 < x then PInf else NInf)"
| "fmul (Fin x) NInf = (if x = 0 then NaN else if 0 < x then NInf else PInf)"
| "fmul PInf (Fin y) = (if y = 0 then NaN else if 0 < y then PInf else NInf)"
| "fmul NInf (Fin y) = (if y = 0 then NaN else if 0 < y then NInf else PInf)"
| "fmul PInf PInf = PInf"
| "fmul NInf NInf = PInf"
| "fmul PInf NInf = NInf"
| "fmul NInf PInf = NInf"

text \<open>\<^verbatim>\<open>a < b\<close> on floats: false as soon as one of them is \<^verbatim>\<open>nan\<close>.\<close>

fun flt :: "double \<Rightarrow> double \<Rightarrow> bool" where
  "flt (Fin x) (Fin y) = (x < y)"
| "flt NaN _ = False"
| "flt _ NaN = False"
| "flt NInf NInf = False"
| "flt NInf _ = True"
| "flt _ NInf = False"
| "flt PInf _ = False"
| "flt _ PInf = True"

subsection \<open>Numbers: \<^verbatim>\<open>int\<close> and \<^verbatim>\<open>float\<close>\<close>

datatype pynum = PyInt int | PyFloat double

definition bind_result :: "error + 'a \<Rightarrow> ('a \<Rightarrow> error + 'b) \<Rightarrow> error + 'b" where
  "bind_result r f = (case r of Inl e \<Rightarrow> Inl e | Inr x \<Rightarrow> f x)"

text \<open>
  The conversion of an operand of mixed arithmetic: an \<^verbatim>\<open>int\<close> becomes the nearest
  \<^verbatim>\<open>float\<close>, or \<^verbatim>\<open>OverflowError\<close> is raised when there is none.
\<close>

definition to_double :: "pynum \<Rightarrow> error + double" where
  "to_double v =
     (case v of
        PyFloat d \<Rightarrow> Inr d
      | PyInt n \<Rightarrow>
          (case round64 (of_int n) of
             Fin y \<Rightarrow> Inr (Fin y)
           | _ \<Rightarrow> Inl (OverflowError ''int too large to convert to float'')))"

text \<open>
  \<^verbatim>\<open>a + b\<close>, \<^verbatim>\<open>a - b\<close>, \<^verbatim>\<open>a * b\<close>: on two \<^verbatim>\<open>int\<close>s the exact operation, otherwise the
  operation of binary64 on the converted operands.
\<close>

definition py_arith ::
  "(int \<Rightarrow> int \<Rightarrow> int) \<Rightarrow> (double \<Rightarrow> double \<Rightarrow> double) \<Rightarrow> pynum \<Rightarrow> pynum \<Rightarrow> error + pynum" where
  "py_arith int_op float_op a b =
     (case (a, b) of
        (PyInt m, PyInt n) \<Rightarrow> Inr (PyInt (int_op m n))
      | _ \<Rightarrow> bind_result (to_double a) (\<lambda>x.
             bind_result (to_double b) (\<lambda>y. Inr (PyFloat (float_op x y)))))"

definition py_add :: "pynum \<Rightarrow> pynum \<Rightarrow> error + pynum" where
  "py_add = py_arith (+) fadd"

definition py_sub :: "pynum \<Rightarrow> pynum \<Rightarrow> error + pynum" where
  "py_sub = py_arith (-) fsub"

definition py_mul :: "pynum \<Rightarrow> pynum \<Rightarrow> error + pynum" where
  "py_mul = py_arith (*) fmul"

text \<open>
  Comparisons. Python compares an \<^verbatim>\<open>int\<close> with a \<^verbatim>\<open>float\<close> by their exact values, so
  no conversion can fail here.
\<close>

definition num_val :: "pynum \<Rightarrow> double" where
  "num_val v = (case v of PyInt n \<Rightarrow> Fin (of_int n) | PyFloat d \<Rightarrow> d)"

definition py_lt :: "pynum \<Rightarrow> pynum \<Rightarrow> bool" where
  "py_lt a b = flt (num_val a) (num_val b)"

definition py_gt :: "pynum \<Rightarrow> pynum \<Rightarrow> bool" where
  "py_gt a b = flt (num_val b) (num_val a)"

definition py_ge :: "pynum \<Rightarrow> pynum \<Rightarrow> bool" where
  "py_ge a b \<longleftrightarrow> num_val a \<noteq> NaN \<and> num_val b \<noteq> NaN \<and> \<not> flt (num_val a) (num_val b)"

text \<open>
  \<^verbatim>\<open>sum(term(i) for i in items)\<close>: the terms are computed and added one by one, from the
  \<^verbatim>\<open>int\<close> 0, and the first error ends the sum. (An interpreter that adds more than two
  floats with a compensated summation can differ from this in the last place.)
\<close>

fun sum_py :: "('a \<Rightarrow> error + pynum) \<Rightarrow> pynum \<Rightarrow> 'a list \<Rightarrow> error + pynum" where
  "sum_py term acc [] = Inr acc"
| "sum_py term acc (i # its) =
     bind_result (term i) (\<lambda>t. bind_result (py_add acc t) (\<lambda>acc'. sum_py term acc' its))"

subsection \<open>The rate tables, with their literals as floats\<close>

definition SHIPPING_RULES_f64 :: "string \<rightharpoonup> (pynum \<Rightarrow> pynum)" where
  "SHIPPING_RULES_f64 = [
     ''TH'' \<mapsto> (\<lambda>subtotal. if py_lt subtotal (PyInt 500) then PyInt 60 else PyInt 0),
     ''JP'' \<mapsto> (\<lambda>subtotal. if py_lt subtotal (PyInt 4000) then PyInt 600 else PyInt 0),
     ''US'' \<mapsto> (\<lambda>subtotal. if py_lt subtotal (PyInt 100) then PyInt 15
                          else (if py_lt subtotal (PyInt 300) then PyInt 8 else PyInt 0)),
     ''DEFAULT'' \<mapsto> (\<lambda>subtotal. if py_lt subtotal (PyInt 200) then PyInt 25 else PyInt 0)]"

definition TAX_RATE_f64 :: "string \<rightharpoonup> double" where
  "TAX_RATE_f64 = [''TH'' \<mapsto> round64 (7 / 100), ''JP'' \<mapsto> round64 (10 / 100),
     ''US'' \<mapsto> round64 (8 / 100), ''DEFAULT'' \<mapsto> round64 (5 / 100)]"

definition MEMBERSHIP_DISCOUNT_f64 :: "string \<rightharpoonup> double" where
  "MEMBERSHIP_DISCOUNT_f64 = [''gold'' \<mapsto> round64 (3 / 100), ''platinum'' \<mapsto> round64 (5 / 100)]"

definition COUPON_RATE_f64 :: "string \<rightharpoonup> double" where
  "COUPON_RATE_f64 = [''WELCOME10'' \<mapsto> round64 (10 / 100), ''VIP20'' \<mapsto> round64 (20 / 100),
     ''STUDENT5'' \<mapsto> round64 (5 / 100)]"

subsection \<open>The functions\<close>

definition calculate_subtotal_f64 :: "LineItem list \<Rightarrow> error + (pynum \<times> pynum)" where
  "calculate_subtotal_f64 its =
     bind_result
       (sum_py (\<lambda>i. py_mul (PyFloat (Fin (unit_price i))) (PyInt (qty i))) (PyInt 0) its)
       (\<lambda>subtotal.
     bind_result
       (sum_py (\<lambda>i. py_mul (PyFloat (Fin 5)) (PyInt (qty i))) (PyInt 0) (filter fragile its))
       (\<lambda>fragile_fee. Inr (subtotal, fragile_fee)))"

definition calculate_shipping_f64 :: "string \<Rightarrow> pynum \<Rightarrow> error + pynum" where
  "calculate_shipping_f64 cntry subtotal =
     (case dict_getitem SHIPPING_RULES_f64 ''DEFAULT'' of
        Inl e \<Rightarrow> Inl e
      | Inr dflt \<Rightarrow> (let rule = dict_get SHIPPING_RULES_f64 cntry dflt in Inr (rule subtotal)))"

definition calculate_discount_f64 :: "Invoice \<Rightarrow> pynum \<Rightarrow> error + (pynum \<times> string list)" where
  "calculate_discount_f64 invoice subtotal =
     (let warnings = [];
          discount = PyFloat (Fin 0)
      in bind_result
           (case MEMBERSHIP_DISCOUNT_f64 (membership invoice) of
              Some r \<Rightarrow> bind_result (py_mul subtotal (PyFloat r)) (\<lambda>p. py_add discount p)
            | None \<Rightarrow> if py_gt subtotal (PyInt 3000) then py_add discount (PyInt 20)
                      else Inr discount)
           (\<lambda>discount.
              case coupon invoice of
                None \<Rightarrow> Inr (discount, warnings)
              | Some c \<Rightarrow>
                  if c = [] then Inr (discount, warnings)
                  else (let code = strip c
                        in case COUPON_RATE_f64 code of
                             Some r \<Rightarrow>
                               bind_result (py_mul subtotal (PyFloat r)) (\<lambda>p.
                               bind_result (py_add discount p) (\<lambda>discount.
                               Inr (discount, warnings)))
                           | None \<Rightarrow> Inr (discount, warnings @ [''Unknown coupon'']))))"

definition calculate_tax_f64 :: "string \<Rightarrow> pynum \<Rightarrow> error + pynum" where
  "calculate_tax_f64 cntry taxable_amount =
     (case dict_getitem TAX_RATE_f64 ''DEFAULT'' of
        Inl e \<Rightarrow> Inl e
      | Inr dflt \<Rightarrow> (let rate = dict_get TAX_RATE_f64 cntry dflt
                     in py_mul taxable_amount (PyFloat rate)))"

definition compute_total_f64 :: "Invoice option \<Rightarrow> error + (pynum \<times> string list)" where
  "compute_total_f64 inv_opt =
     (case validate inv_opt of
        Inl e \<Rightarrow> Inl e
      | Inr _ \<Rightarrow>
     (case inv_opt of
        None \<Rightarrow> Inl (AttributeError ''items'')
      | Some invoice \<Rightarrow>
     bind_result (calculate_subtotal_f64 (items invoice)) (\<lambda>(subtotal, fragile_fee).
     bind_result (calculate_shipping_f64 (country invoice) subtotal) (\<lambda>shipping.
     bind_result (calculate_discount_f64 invoice subtotal) (\<lambda>(discount, warnings).
     bind_result (py_sub subtotal discount) (\<lambda>taxable_amount.
     bind_result (calculate_tax_f64 (country invoice) taxable_amount) (\<lambda>tax.
     bind_result (py_add subtotal shipping) (\<lambda>sum1.
     bind_result (py_add sum1 fragile_fee) (\<lambda>sum2.
     bind_result (py_add sum2 tax) (\<lambda>sum3.
     bind_result (py_sub sum3 discount) (\<lambda>total.
       (let total = (if py_lt total (PyInt 0) then PyInt 0 else total);
            warnings = (if py_gt subtotal (PyInt 10000)
                           \<and> MEMBERSHIP_DISCOUNT_f64 (membership invoice) = None
                        then warnings @ [''Consider membership upgrade''] else warnings)
        in Inr (total, warnings)))))))))))))"

subsection \<open>Two invoices at the limits of binary64\<close>

text \<open>
  One item of price \<^verbatim>\<open>1e308\<close> (the float of that literal is \<open>5010420900022432 * 2 ^ 971\<close>),
  ten times, with the coupon \<^verbatim>\<open>"VIP20"\<close>.
\<close>

definition overflow_invoice :: Invoice where
  "overflow_invoice = \<lparr>invoice_id = ''INV-4'', customer_id = ''CUST-4'', country = ''TH'',
     membership = '''', coupon = Some ''VIP20'',
     items = [\<lparr>sku = ''C'', category = ''other'', unit_price = 5010420900022432 * 2 ^ 971,
               qty = 10, fragile = False\<rparr>]\<rparr>"

text \<open>One item of price \<^verbatim>\<open>1.5\<close>, \<open>10 ^ 400\<close> times.\<close>

definition huge_quantity_invoice :: Invoice where
  "huge_quantity_invoice = \<lparr>invoice_id = ''INV-5'', customer_id = ''CUST-5'', country = ''TH'',
     membership = '''', coupon = None,
     items = [\<lparr>sku = ''D'', category = ''other'', unit_price = 3 / 2,
               qty = 10 ^ 400, fragile = False\<rparr>]\<rparr>"

section \<open>Auxiliary facts\<close>

subsection \<open>The tables as case distinctions\<close>

lemma MEMBERSHIP_DISCOUNT_eq:
  "MEMBERSHIP_DISCOUNT m =
     (if m = ''gold'' then Some (3 / 100) else if m = ''platinum'' then Some (5 / 100) else None)"
  by (simp add: MEMBERSHIP_DISCOUNT_def)

lemma COUPON_RATE_eq:
  "COUPON_RATE c =
     (if c = ''WELCOME10'' then Some (10 / 100) else if c = ''VIP20'' then Some (20 / 100)
      else if c = ''STUDENT5'' then Some (5 / 100) else None)"
  by (simp add: COUPON_RATE_def)

text \<open>Neither lookup with a default can raise: the key \<^verbatim>\<open>DEFAULT\<close> is in both tables.\<close>

lemma calculate_shipping_eq:
  "calculate_shipping c s =
     Inr (if c = ''TH'' then (if s < 500 then 60 else 0)
          else if c = ''JP'' then (if s < 4000 then 600 else 0)
          else if c = ''US'' then (if s < 100 then 15 else if s < 300 then 8 else 0)
          else (if s < 200 then 25 else 0))"
  by (simp add: calculate_shipping_def dict_getitem_def dict_get_def SHIPPING_RULES_def)

lemma calculate_tax_eq:
  "calculate_tax c a =
     Inr (a * (if c = ''TH'' then 7 / 100 else if c = ''JP'' then 10 / 100
               else if c = ''US'' then 8 / 100 else 5 / 100))"
  by (simp add: calculate_tax_def dict_getitem_def dict_get_def TAX_RATE_def)

subsection \<open>Validation collects the defects\<close>

lemma validate_item_append: "validate_item ps item = ps @ item_defects item"
  by (simp add: validate_item_def item_defects_def VALID_CATEGORIES_def Let_def)

lemma foldl_validate_item: "foldl validate_item ps its = ps @ concat (map item_defects its)"
  by (induction its arbitrary: ps) (simp_all add: validate_item_append)

lemma validate_eq:
  "validate inv_opt =
     (if all_defects inv_opt = [] then Inr ()
      else Inl (ValueError (join ''; '' (all_defects inv_opt))))"
proof (cases inv_opt)
  case None
  then show ?thesis by (simp add: validate_def all_defects_def)
next
  case (Some invoice)
  then show ?thesis
    by (simp add: validate_def Let_def foldl_validate_item all_defects_def field_defects_def)
qed

lemma validate_None: "validate None = Inl (ValueError ''Invoice is missing'')"
  by (simp add: validate_def)

lemma item_defects_Nil_iff: "item_defects item = [] \<longleftrightarrow> \<not> invalid_item item"
  by (simp add: item_defects_def invalid_item_def)

lemma all_defects_Nil_iff: "all_defects inv_opt = [] \<longleftrightarrow> \<not> invalid_invoice inv_opt"
  by (cases inv_opt)
     (auto simp: all_defects_def invalid_invoice_def field_defects_def item_defects_Nil_iff
        list_ex_iff)

lemma valid_items:
  assumes "validate (Some invoice) = Inr ()"
  shows "invoice_id invoice \<noteq> [] \<and> customer_id invoice \<noteq> [] \<and> items invoice \<noteq> [] \<and>
         (\<forall>item \<in> set (items invoice). sku item \<noteq> [] \<and> 0 < qty item \<and> 0 \<le> unit_price item \<and>
            category item \<in> {''book'', ''food'', ''electronics'', ''other''})"
proof -
  have "all_defects (Some invoice) = []"
    using assms by (simp add: validate_eq split: if_splits)
  then have "\<not> invalid_invoice (Some invoice)"
    by (simp add: all_defects_Nil_iff)
  then show ?thesis
    by (auto simp: invalid_invoice_def invalid_item_def list_ex_iff)
qed

lemma sublist_join: "p \<in> set ps \<Longrightarrow> sublist p (join sep ps)"
proof (induction sep ps rule: join.induct)
  case (1 sep)
  then show ?case by simp
next
  case (2 sep x)
  then show ?case by simp
next
  case (3 sep x y ys)
  show ?case
  proof (cases "p = x")
    case True
    then show ?thesis by simp
  next
    case False
    with 3 have "sublist p (join sep (y # ys))" by simp
    then obtain us vs where "join sep (y # ys) = us @ p @ vs"
      by (auto simp: sublist_def)
    then have "join sep (x # y # ys) = (x @ sep @ us) @ p @ vs" by simp
    then show ?thesis unfolding sublist_def by blast
  qed
qed

subsection \<open>The amounts of a validated invoice\<close>

lemma subtotal_nonneg:
  assumes "\<forall>item \<in> set its. 0 < qty item \<and> 0 \<le> unit_price item"
  shows "0 \<le> fst (calculate_subtotal its) \<and> 0 \<le> snd (calculate_subtotal its)"
proof -
  have "0 \<le> (\<Sum>i\<leftarrow>its. unit_price i * of_int (qty i))"
    using assms by (intro sum_list_nonneg) auto
  moreover have "0 \<le> (\<Sum>i\<leftarrow>filter fragile its. 5 * (of_int (qty i) :: real))"
    using assms by (intro sum_list_nonneg) auto
  ultimately show ?thesis by (simp add: calculate_subtotal_def)
qed

text \<open>
  Over exact numbers the discount of a non-negative subtotal never exceeds it: at most 5%
  and 20% of it, or 20 and 20% of it when it is above 3000.
\<close>

lemma discount_bounds:
  assumes "0 \<le> S"
  shows "0 \<le> fst (calculate_discount invoice S) \<and> fst (calculate_discount invoice S) \<le> S"
  using assms
  by (auto simp: calculate_discount_def MEMBERSHIP_DISCOUNT_eq COUPON_RATE_eq Let_def
        split: option.splits)

subsection \<open>\<^const>\<open>compute_total\<close> after the validation\<close>

lemma compute_total_invalid:
  assumes "validate inv_opt = Inl e"
  shows "compute_total inv_opt = Inl e"
  by (simp add: compute_total_def assms)

lemma compute_total_valid:
  assumes "validate (Some invoice) = Inr ()"
    and "calculate_subtotal (items invoice) = (S, F)"
    and "calculate_discount invoice S = (D, W)"
    and "calculate_shipping (country invoice) S = Inr Sh"
    and "calculate_tax (country invoice) (S - D) = Inr T"
  shows "compute_total (Some invoice) =
           Inr (if S + Sh + F + T - D < 0 then 0 else S + Sh + F + T - D,
                if S > 10000 \<and> MEMBERSHIP_DISCOUNT (membership invoice) = None
                then W @ [''Consider membership upgrade''] else W)"
  by (simp add: compute_total_def assms Let_def)

text \<open>A result is only ever returned after a successful validation.\<close>

lemma compute_total_Inr_validated:
  assumes "compute_total (Some invoice) = Inr r"
  shows "validate (Some invoice) = Inr ()"
proof (cases "validate (Some invoice)")
  case (Inl e)
  then show ?thesis using assms compute_total_invalid by fastforce
next
  case (Inr u)
  then show ?thesis by simp
qed

text \<open>
  What \<^const>\<open>compute_total\<close> reads of an invoice: two invoices that agree on the validation,
  the items, the country, the discount and on whether the membership is in the table get
  the same result.
\<close>

lemma compute_total_cong:
  assumes "validate (Some a) = validate (Some b)"
    and "items a = items b" and "country a = country b"
    and "\<And>S. calculate_discount a S = calculate_discount b S"
    and "MEMBERSHIP_DISCOUNT (membership a) = None \<longleftrightarrow> MEMBERSHIP_DISCOUNT (membership b) = None"
  shows "compute_total (Some a) = compute_total (Some b)"
  by (simp add: compute_total_def assms calculate_shipping_eq calculate_tax_eq
      split: sum.splits prod.splits)

text \<open>
  Over exact numbers a validated invoice has a non-negative subtotal and a discount between
  0 and the subtotal, so the sum that \<^const>\<open>compute_total\<close> clamps is never negative there.
\<close>

lemma validated_amounts:
  assumes "validate (Some invoice) = Inr ()"
    and "calculate_subtotal (items invoice) = (S, F)"
    and "calculate_discount invoice S = (D, W)"
    and "calculate_shipping (country invoice) S = Inr Sh"
    and "calculate_tax (country invoice) (S - D) = Inr T"
  shows "0 \<le> S \<and> 0 \<le> F \<and> 0 \<le> D \<and> D \<le> S \<and> 0 \<le> Sh \<and> 0 \<le> T
       \<and> 0 \<le> S + Sh + F + T - D"
proof -
  have "\<forall>item \<in> set (items invoice). 0 < qty item \<and> 0 \<le> unit_price item"
    using valid_items [OF assms(1)] by blast
  from subtotal_nonneg [OF this] assms(2) have s: "0 \<le> S" "0 \<le> F"
    by simp_all
  from discount_bounds [OF s(1), of invoice] assms(3) have d: "0 \<le> D" "D \<le> S"
    by simp_all
  have sh: "0 \<le> Sh"
    using assms(4) by (auto simp: calculate_shipping_eq split: if_splits)
  have "T = (S - D) * (if country invoice = ''TH'' then 7 / 100
      else if country invoice = ''JP'' then 10 / 100
      else if country invoice = ''US'' then 8 / 100 else 5 / 100)"
    using assms(5) by (simp add: calculate_tax_eq)
  with d have t: "0 \<le> T"
    by simp
  from s d sh t show ?thesis by simp
qed

subsection \<open>The warnings of the discount, the trimming, the keys of the tables\<close>

lemma calculate_discount_warnings:
  "snd (calculate_discount invoice S) = [] \<or> snd (calculate_discount invoice S) = [''Unknown coupon'']"
  by (simp add: calculate_discount_def Let_def split: option.splits)

lemma strip_vip20_lower: "strip ''vip20 '' = ''vip20''"
  by (simp add: strip_def is_space_def)

lemma strip_VIP20: "strip ''VIP20 '' = ''VIP20''"
  by (simp add: strip_def is_space_def)

lemma dom_SHIPPING_RULES: "dom SHIPPING_RULES = {''TH'', ''JP'', ''US'', ''DEFAULT''}"
  by (auto simp: SHIPPING_RULES_def)

lemma dom_TAX_RATE: "dom TAX_RATE = {''TH'', ''JP'', ''US'', ''DEFAULT''}"
  by (auto simp: TAX_RATE_def)

lemma dom_MEMBERSHIP_DISCOUNT: "dom MEMBERSHIP_DISCOUNT = {''gold'', ''platinum''}"
  by (auto simp: MEMBERSHIP_DISCOUNT_def)

lemma dom_COUPON_RATE: "dom COUPON_RATE = {''WELCOME10'', ''VIP20'', ''STUDENT5''}"
  by (auto simp: COUPON_RATE_def)

text \<open>No key of a table differs from another key of that table only in letter case.\<close>

lemma country_variant_not_key:
  assumes "differs_only_in_case c k" and "k \<in> {''TH'', ''JP'', ''US'', ''DEFAULT''}"
  shows "c \<notin> {''TH'', ''JP'', ''US'', ''DEFAULT''}"
  using assms by (auto simp: differs_only_in_case_def ascii_lower_def)

lemma membership_variant_not_key:
  assumes "differs_only_in_case m k" and "k \<in> {''gold'', ''platinum''}"
  shows "m \<notin> {''gold'', ''platinum''}"
  using assms by (auto simp: differs_only_in_case_def ascii_lower_def)

lemma coupon_variant_not_key:
  assumes "differs_only_in_case c k" and "k \<in> {''WELCOME10'', ''VIP20'', ''STUDENT5''}"
  shows "c \<notin> {''WELCOME10'', ''VIP20'', ''STUDENT5''}"
  using assms by (auto simp: differs_only_in_case_def ascii_lower_def)

subsection \<open>The sample invoices\<close>

lemma validate_simple_invoice:
  "0 \<le> price \<Longrightarrow> validate (Some (simple_invoice c m cp price)) = Inr ()"
  by (simp add: validate_def simple_invoice_def simple_item_def validate_item_def
      VALID_CATEGORIES_def)

lemma subtotal_simple_invoice:
  "calculate_subtotal (items (simple_invoice c m cp price)) = (price, 0)"
  by (simp add: calculate_subtotal_def simple_invoice_def simple_item_def)

section \<open>Auxiliary facts on the numbers of Python\<close>

subsection \<open>Rounding\<close>

lemma bitlen_eqI:
  fixes a :: int and e :: nat
  assumes "2 ^ e \<le> a" and "a < 2 ^ Suc e"
  shows "bitlen a = int e + 1"
proof -
  have s: "nat (int e + 1) = Suc e" by simp
  have "bitlen a \<le> int e + 1"
    using assms(2) unfolding bitlen_le_iff_power s by simp
  moreover have "\<not> bitlen a \<le> int e"
    using assms(1) by (simp add: bitlen_le_iff_power)
  ultimately show ?thesis by linarith
qed

lemma exponent_nonneg:
  fixes n :: nat
  assumes lo: "(2::real) ^ n \<le> x" and hi: "x < 2 ^ Suc n"
  shows "exponent x = int n"
proof -
  have "(1::real) \<le> 2 ^ n" by simp
  with lo have x1: "1 \<le> x" by linarith
  have "(2::int) ^ n \<le> \<lfloor>x\<rfloor>"
    using lo by (simp add: le_floor_iff)
  moreover have "\<lfloor>x\<rfloor> < 2 ^ Suc n"
    using hi by (simp add: floor_less_iff)
  ultimately have "bitlen \<lfloor>x\<rfloor> = int n + 1"
    by (rule bitlen_eqI)
  with x1 show ?thesis by (simp add: exponent_def)
qed

lemma exponent_neg:
  fixes n :: nat
  assumes lo: "1 \<le> x * 2 ^ Suc n" and hi: "x * 2 ^ n < 1"
  shows "exponent x = - int n - 1"
proof -
  have p: "(0::real) < 2 ^ n" "(0::real) < 2 ^ Suc n" by simp_all
  have pos: "0 < x"
  proof (rule ccontr)
    assume "\<not> 0 < x"
    then have "x * 2 ^ Suc n \<le> 0"
      using p(2) by (simp add: mult_le_0_iff)
    with lo show False by linarith
  qed
  have "x * 1 \<le> x * 2 ^ n"
    using pos by (intro mult_left_mono) simp_all
  with hi have x1: "x < 1" by simp
  have a: "2 ^ n < 1 / x"
    using hi pos by (simp add: field_simps)
  have b: "1 / x \<le> 2 ^ Suc n"
    using lo pos by (simp add: field_simps)
  have "(2::int) ^ n < \<lceil>1 / x\<rceil>"
    using a by (simp add: less_ceiling_iff)
  then have c: "(2::int) ^ n \<le> \<lceil>1 / x\<rceil> - 1" by simp
  have "\<lceil>1 / x\<rceil> \<le> 2 ^ Suc n"
    using b by (simp add: ceiling_le_iff)
  then have d: "\<lceil>1 / x\<rceil> - 1 < 2 ^ Suc n" by simp
  from c d have "bitlen (\<lceil>1 / x\<rceil> - 1) = int n + 1"
    by (rule bitlen_eqI)
  with x1 show ?thesis by (simp add: exponent_def)
qed

lemma round_half_even_eq:
  assumes "\<bar>x - of_int n\<bar> < 1 / 2"
  shows "round_half_even x = n"
proof -
  have lo: "of_int n - 1 / 2 < x" and hi: "x < of_int n + 1 / 2"
    using assms by linarith+
  show ?thesis
  proof (cases "of_int n \<le> x")
    case True
    with hi have "\<lfloor>x\<rfloor> = n" by (simp add: floor_eq_iff)
    with hi show ?thesis
      by (simp add: round_half_even_def Let_def)
  next
    case False
    with lo have "\<lfloor>x\<rfloor> = n - 1" by (simp add: floor_eq_iff)
    with lo False show ?thesis
      by (simp add: round_half_even_def Let_def)
  qed
qed


lemma exponent_eq:
  assumes "2 powi e \<le> x" and "x < 2 powi (e + 1)"
  shows "exponent x = e"
proof (cases "0 \<le> e")
  case True
  then obtain n where e: "e = int n" using nonneg_int_cases by blast
  have s: "int n + 1 = int (Suc n)" by simp
  have "(2::real) ^ n \<le> x" using assms(1) by (simp add: e)
  moreover have "x < 2 ^ Suc n" using assms(2) unfolding e s power_int_of_nat .
  ultimately show ?thesis unfolding e by (rule exponent_nonneg)
next
  case False
  then obtain n where e: "e = - int (Suc n)"
    by (metis Suc_pred' linorder_not_le negD of_nat_0_less_iff)
  have s: "- int (Suc n) + 1 = - int n" by simp
  have "inverse ((2::real) ^ Suc n) \<le> x"
    using assms(1) unfolding e power_int_minus power_int_of_nat .
  then have lo: "1 \<le> x * 2 ^ Suc n"
    by (simp add: field_simps)
  have "x < inverse ((2::real) ^ n)"
    using assms(2) unfolding e s power_int_minus power_int_of_nat .
  then have hi: "x * 2 ^ n < 1"
    by (simp add: field_simps)
  from lo hi have "exponent x = - int n - 1" by (rule exponent_neg)
  then show ?thesis by (simp add: e)
qed

lemma exponent_bounds:
  assumes "0 < x"
  shows "2 powi exponent x \<le> x \<and> x < 2 powi (exponent x + 1)"
proof -
  define e where "e = \<lfloor>log 2 x\<rfloor>"
  have "2 powr of_int e \<le> 2 powr log 2 x"
    by (simp add: e_def)
  then have lo: "2 powi e \<le> x"
    using assms by (simp add: powr_real_of_int')
  have "log 2 x < of_int (e + 1)"
    by (simp add: e_def)
  then have "2 powr log 2 x < 2 powr of_int (e + 1)"
    by simp
  then have hi: "x < 2 powi (e + 1)"
    using assms powr_real_of_int' [of 2 "e + 1"] by simp
  from lo hi have "exponent x = e" by (rule exponent_eq)
  with lo hi show ?thesis by simp
qed


lemma round_half_even_ge_floor: "\<lfloor>x\<rfloor> \<le> round_half_even x"
  by (simp add: round_half_even_def Let_def)

lemma round64_eqI:
  assumes lo: "2 powi (k + 52) \<le> x" and hi: "x < 2 powi (k + 53)"
    and k: "- 1074 \<le> k"
    and n: "\<bar>x / 2 powi k - of_int n\<bar> < 1 / 2"
    and fin: "(of_int n :: real) * 2 powi k < 2 ^ 1024"
  shows "round64 x = Fin (of_int n * 2 powi k)"
proof -
  have pos: "0 < x"
    using lo zero_less_power_int [of "2::real" "k + 52"] by linarith
  then have ax: "\<bar>x\<bar> = x" and xne: "x \<noteq> 0" by simp_all
  have "x < 2 powi (k + 52 + 1)"
    using hi by (simp add: add.commute add.left_commute)
  with lo have e: "exponent x = k + 52" by (rule exponent_eq)
  have m: "max (exponent x) (- 1022) - 52 = k"
    using e k by simp
  have r: "round_half_even (x / 2 powi k) = n"
    using n by (rule round_half_even_eq)
  have p: "(0::real) < 2 powi k" by simp
  have "2 powi (k + 52) / 2 powi k \<le> x / 2 powi k"
    using lo p by (simp add: divide_right_mono)
  then have "(2::real) ^ 52 \<le> x / 2 powi k"
    by (simp add: power_int_add)
  moreover have "(1::real) \<le> 2 ^ 52" by simp
  ultimately have "0 \<le> (of_int n :: real)" using n by linarith
  then have "(0::real) \<le> of_int n * 2 powi k"
    using p by simp
  moreover have "(0::real) < 2 ^ 1024" by simp
  ultimately have nn: "\<not> of_int n * 2 powi k \<le> - ((2::real) ^ 1024)"
    by linarith
  have nfin: "\<not> (2::real) ^ 1024 \<le> of_int n * 2 powi k"
    using fin by simp
  show ?thesis
    unfolding round64_def Let_def ax m r
    by (simp only: if_not_P [OF xne] if_not_P [OF nfin] if_not_P [OF nn])
qed

lemma round64_overflow:
  assumes "2 ^ 1024 \<le> x"
  shows "round64 x = PInf"
proof -
  have "(0::real) < 2 ^ 1024" by simp
  with assms have pos: "0 < x" by linarith
  define e where "e = exponent x"
  have lo: "2 powi e \<le> x" and hi: "x < 2 powi (e + 1)"
    using exponent_bounds [OF pos] by (simp_all add: e_def)
  have e: "1024 \<le> e"
  proof (rule ccontr)
    assume "\<not> 1024 \<le> e"
    then have "e + 1 \<le> 1024" by simp
    then have "2 powi (e + 1) \<le> (2::real) powi 1024"
      by (intro power_int_increasing) simp_all
    with hi assms show False by simp
  qed
  define k where "k = e - 52"
  have ax: "\<bar>x\<bar> = x" and xne: "x \<noteq> 0" using pos by simp_all
  have m: "max (exponent x) (- 1022) - 52 = k"
    using e by (simp add: e_def [symmetric] k_def)
  have p: "(0::real) < 2 powi k" by simp
  have "2 powi e / 2 powi k \<le> x / 2 powi k"
    using lo p by (simp add: divide_right_mono)
  moreover have "(2::real) powi e / 2 powi k = 2 ^ 52"
    by (simp add: k_def power_int_diff)
  ultimately have "(2::real) ^ 52 \<le> x / 2 powi k" by simp
  then have "(2::int) ^ 52 \<le> \<lfloor>x / 2 powi k\<rfloor>"
    by (simp add: le_floor_iff)
  with round_half_even_ge_floor [of "x / 2 powi k"]
  have "(2::int) ^ 52 \<le> round_half_even (x / 2 powi k)" by linarith
  then have "of_int ((2::int) ^ 52) \<le> (of_int (round_half_even (x / 2 powi k)) :: real)"
    by (simp only: of_int_le_iff)
  then have r: "(2::real) powi 52 \<le> of_int (round_half_even (x / 2 powi k))"
    by simp
  have d: "(2::real) powi 52 * 2 powi k \<le> of_int (round_half_even (x / 2 powi k)) * 2 powi k"
    using r p by (intro mult_right_mono) simp_all
  have "(2::real) powi (52 + k) = 2 powi 52 * 2 powi k"
    by (rule power_int_add) simp
  then have c: "(2::real) powi 52 * 2 powi k = 2 powi e"
    by (simp only: k_def) simp
  have b: "(2::real) powi 1024 \<le> 2 powi e"
    using e by (intro power_int_increasing) simp_all
  have "(2::real) powi 1024 \<le> of_int (round_half_even (x / 2 powi k)) * 2 powi k"
    using b d unfolding c by (rule order_trans)
  then have "(2::real) ^ 1024 \<le> of_int (round_half_even (x / 2 powi k)) * 2 powi k"
    by simp
  then have ovf: "(2::real) ^ 1024 \<le> of_int (round_half_even (x / 2 powi k)) * 2 powi k" .
  show ?thesis
    unfolding round64_def Let_def ax m
    by (simp only: if_not_P [OF xne] if_P [OF ovf])
qed


lemma round64_dyadic:
  fixes j :: nat
  assumes lo: "2 ^ 52 \<le> x * 2 ^ j" and hi: "x * 2 ^ j < 2 ^ 53"
    and j: "j \<le> 1074"
    and n: "\<bar>x * 2 ^ j - of_int n\<bar> < 1 / 2"
  shows "round64 x = Fin (of_int n / 2 ^ j)"
proof -
  define k where "k = - int j"
  have pk: "(2::real) powi k = inverse (2 ^ j)"
    unfolding k_def power_int_minus power_int_of_nat ..
  have d: "x / 2 powi k = x * 2 ^ j"
    by (simp add: pk divide_inverse)
  have "(2::real) powi (k + 52) = 2 powi k * 2 powi 52"
    by (rule power_int_add) simp
  then have a: "(2::real) powi (k + 52) = 2 ^ 52 / 2 ^ j"
    by (simp add: pk field_simps)
  have "(2::real) powi (k + 53) = 2 powi k * 2 powi 53"
    by (rule power_int_add) simp
  then have b: "(2::real) powi (k + 53) = 2 ^ 53 / 2 ^ j"
    by (simp add: pk field_simps)
  have lo': "2 powi (k + 52) \<le> x"
    unfolding a using lo by (simp add: field_simps)
  have hi': "x < 2 powi (k + 53)"
    unfolding b using hi by (simp add: field_simps)
  have k': "- 1074 \<le> k" using j by (simp add: k_def)
  have n': "\<bar>x / 2 powi k - of_int n\<bar> < 1 / 2"
    unfolding d by (rule n)
  have "(of_int n :: real) < x * 2 ^ j + 1 / 2" using n by linarith
  also have "\<dots> < 2 ^ 53 + 1 / 2" using hi by simp
  finally have "(of_int n :: real) < 2 ^ 54" by simp
  then have n54: "(of_int n :: real) < 2 ^ 54" .
  have pk1: "(2::real) powi k \<le> 1"
    by (simp add: pk field_simps one_le_power)
  have fin: "(of_int n :: real) * 2 powi k < 2 ^ 1024"
  proof (cases "0 \<le> n")
    case True
    then have "(of_int n :: real) * 2 powi k \<le> of_int n * 1"
      using pk1 by (intro mult_left_mono) simp_all
    also have "\<dots> < 2 ^ 54" using n54 by simp
    also have "(2::real) ^ 54 < 2 ^ 1024"
      by (rule power_strict_increasing) simp_all
    finally show ?thesis .
  next
    case False
    then have "(of_int n :: real) * 2 powi k < 0"
      by (simp add: mult_less_0_iff)
    moreover have "(0::real) < 2 ^ 1024" by simp
    ultimately show ?thesis by linarith
  qed
  from round64_eqI [OF lo' hi' k' n' fin] show ?thesis
    by (simp add: pk field_simps)
qed

subsection \<open>Some floats\<close>

lemma round64_small_ints:
  "round64 2 = Fin 2" "round64 10 = Fin 10" "round64 20 = Fin 20" "round64 60 = Fin 60"
  "round64 200 = Fin 200" "round64 260 = Fin 260" "round64 270 = Fin 270"
  "round64 284 = Fin 284"
  using round64_dyadic [of 2 51 "2 * 2 ^ 51"] round64_dyadic [of 10 49 "10 * 2 ^ 49"]
    round64_dyadic [of 20 48 "20 * 2 ^ 48"] round64_dyadic [of 60 47 "60 * 2 ^ 47"]
    round64_dyadic [of 200 45 "200 * 2 ^ 45"] round64_dyadic [of 260 44 "260 * 2 ^ 44"]
    round64_dyadic [of 270 44 "270 * 2 ^ 44"] round64_dyadic [of 284 44 "284 * 2 ^ 44"]
  by simp_all

text \<open>The floats of the literals \<^verbatim>\<open>0.07\<close> and \<^verbatim>\<open>0.20\<close>.\<close>

lemma round64_rate_TH: "round64 (7 / 100) = Fin (1261007895663739 / 2 ^ 54)"
  using round64_dyadic [of "7 / 100" 56 5044031582654956] by simp

lemma round64_rate_VIP20: "round64 (1 / 5) = Fin (3602879701896397 / 2 ^ 54)"
  using round64_dyadic [of "1 / 5" 55 7205759403792794] by simp

text \<open>\<^verbatim>\<open>200.0 * 0.07\<close> is \<^verbatim>\<open>14.000000000000002\<close>, and \<^verbatim>\<open>270.0 + 14.000000000000002\<close> is \<^verbatim>\<open>284.0\<close>.\<close>

lemma round64_example_tax:
  "round64 (200 * (1261007895663739 / 2 ^ 54)) = Fin (7881299347898369 / 2 ^ 49)"
  using round64_dyadic [of "200 * (1261007895663739 / 2 ^ 54)" 49 7881299347898369] by simp

lemma round64_example_sum: "round64 (270 + 7881299347898369 / 2 ^ 49) = Fin 284"
  using round64_dyadic [of "270 + 7881299347898369 / 2 ^ 49" 44 "284 * 2 ^ 44"] by simp

subsection \<open>The operations on numbers\<close>

lemma bind_result_simps:
  "bind_result (Inl e) f = Inl e" "bind_result (Inr x) f = f x"
  by (simp_all add: bind_result_def)

lemma to_double_PyFloat: "to_double (PyFloat d) = Inr d"
  by (simp add: to_double_def)

lemma to_double_zero: "to_double (PyInt 0) = Inr (Fin 0)"
  by (simp add: to_double_def round64_def)

lemma py_arith_floats:
  "py_arith int_op float_op (PyFloat a) (PyFloat b) = Inr (PyFloat (float_op a b))"
  by (simp add: py_arith_def to_double_PyFloat bind_result_simps)

text \<open>After the clamp the total is not below zero: it is at least zero, or it is \<^verbatim>\<open>nan\<close>.\<close>

lemma not_lt_zero_cases:
  assumes "\<not> py_lt t (PyInt 0)"
  shows "t = PyFloat NaN \<or> py_ge t (PyInt 0)"
proof (cases t)
  case (PyInt n)
  with assms show ?thesis by (simp add: py_lt_def py_ge_def num_val_def)
next
  case (PyFloat d)
  with assms show ?thesis by (cases d) (simp_all add: py_lt_def py_ge_def num_val_def)
qed

lemma clamp_not_negative: "\<not> py_lt (if py_lt raw (PyInt 0) then PyInt 0 else raw) (PyInt 0)"
  by (simp add: py_lt_def num_val_def)

subsection \<open>\<^const>\<open>compute_total_f64\<close> step by step\<close>

lemma compute_total_f64_InrE:
  assumes "compute_total_f64 inv_opt = Inr (tot, warnings)"
  obtains invoice subtotal fragile_fee shipping discount w taxable_amount tax
      sum1 sum2 sum3 raw
    where "inv_opt = Some invoice" "validate inv_opt = Inr ()"
      "calculate_subtotal_f64 (items invoice) = Inr (subtotal, fragile_fee)"
      "calculate_shipping_f64 (country invoice) subtotal = Inr shipping"
      "calculate_discount_f64 invoice subtotal = Inr (discount, w)"
      "py_sub subtotal discount = Inr taxable_amount"
      "calculate_tax_f64 (country invoice) taxable_amount = Inr tax"
      "py_add subtotal shipping = Inr sum1"
      "py_add sum1 fragile_fee = Inr sum2"
      "py_add sum2 tax = Inr sum3"
      "py_sub sum3 discount = Inr raw"
      "tot = (if py_lt raw (PyInt 0) then PyInt 0 else raw)"
  using assms
  by (auto simp: compute_total_f64_def bind_result_def Let_def
      split: sum.splits option.splits prod.splits)

lemma compute_total_f64_steps:
  assumes "validate (Some invoice) = Inr ()"
    and "calculate_subtotal_f64 (items invoice) = Inr (subtotal, fragile_fee)"
    and "calculate_shipping_f64 (country invoice) subtotal = Inr shipping"
    and "calculate_discount_f64 invoice subtotal = Inr (discount, w)"
    and "py_sub subtotal discount = Inr taxable_amount"
    and "calculate_tax_f64 (country invoice) taxable_amount = Inr tax"
    and "py_add subtotal shipping = Inr sum1"
    and "py_add sum1 fragile_fee = Inr sum2"
    and "py_add sum2 tax = Inr sum3"
    and "py_sub sum3 discount = Inr raw"
  shows "compute_total_f64 (Some invoice) =
           Inr (if py_lt raw (PyInt 0) then PyInt 0 else raw,
                if py_gt subtotal (PyInt 10000)
                   \<and> MEMBERSHIP_DISCOUNT_f64 (membership invoice) = None
                then w @ [''Consider membership upgrade''] else w)"
  by (simp add: compute_total_f64_def assms bind_result_simps Let_def)

lemma MEMBERSHIP_DISCOUNT_f64_empty: "MEMBERSHIP_DISCOUNT_f64 '''' = None"
  by (simp add: MEMBERSHIP_DISCOUNT_f64_def)

subsection \<open>The example invoice, as the interpreter computes it\<close>

lemma validate_example_invoice: "validate (Some example_invoice) = Inr ()"
  by (simp add: validate_def example_invoice_def example_item_def validate_item_def
      VALID_CATEGORIES_def)

lemma py_mul_float_int_small:
  assumes "round64 (of_int n) = Fin (of_int n)"
  shows "py_mul (PyFloat (Fin x)) (PyInt n) = Inr (PyFloat (round64 (x * of_int n)))"
  using assms by (simp add: py_mul_def py_arith_def to_double_def bind_result_simps)

lemma py_add_float_int_small:
  assumes "round64 (of_int n) = Fin (of_int n)"
  shows "py_add (PyFloat (Fin x)) (PyInt n) = Inr (PyFloat (round64 (x + of_int n)))"
  using assms by (simp add: py_add_def py_arith_def to_double_def bind_result_simps)

lemma py_add_zero_float: "py_add (PyInt 0) (PyFloat d) = Inr (PyFloat (fadd (Fin 0) d))"
  by (simp add: py_add_def py_arith_def to_double_zero to_double_PyFloat bind_result_simps)

lemma subtotal_example_invoice:
  "calculate_subtotal_f64 (items example_invoice) = Inr (PyFloat (Fin 200), PyFloat (Fin 10))"
proof -
  have two: "round64 (of_int 2) = Fin (of_int 2)"
    by (simp add: round64_small_ints)
  have a: "py_mul (PyFloat (Fin 100)) (PyInt 2) = Inr (PyFloat (Fin 200))"
    using py_mul_float_int_small [OF two, of 100] by (simp add: round64_small_ints)
  have b: "py_mul (PyFloat (Fin 5)) (PyInt 2) = Inr (PyFloat (Fin 10))"
    using py_mul_float_int_small [OF two, of 5] by (simp add: round64_small_ints)
  have c: "py_add (PyInt 0) (PyFloat (Fin 200)) = Inr (PyFloat (Fin 200))"
    by (simp add: py_add_zero_float round64_small_ints)
  have d: "py_add (PyInt 0) (PyFloat (Fin 10)) = Inr (PyFloat (Fin 10))"
    by (simp add: py_add_zero_float round64_small_ints)
  show ?thesis
    by (simp add: calculate_subtotal_f64_def example_invoice_def example_item_def
        a b c d bind_result_simps)
qed

lemma compute_total_f64_example:
  "compute_total_f64 (Some example_invoice) = Inr (PyFloat (Fin 284), [])"
proof -
  have c: "country example_invoice = ''TH''" and m: "membership example_invoice = ''''"
    and cp: "coupon example_invoice = None"
    by (simp_all add: example_invoice_def)
  have sh: "calculate_shipping_f64 (country example_invoice) (PyFloat (Fin 200)) = Inr (PyInt 60)"
    by (simp add: c calculate_shipping_f64_def dict_getitem_def dict_get_def
        SHIPPING_RULES_f64_def py_lt_def num_val_def)
  have d: "calculate_discount_f64 example_invoice (PyFloat (Fin 200))
      = Inr (PyFloat (Fin 0), [])"
    by (simp add: calculate_discount_f64_def m cp MEMBERSHIP_DISCOUNT_f64_empty py_gt_def
        num_val_def bind_result_simps)
  have ta: "py_sub (PyFloat (Fin 200)) (PyFloat (Fin 0)) = Inr (PyFloat (Fin 200))"
    by (simp add: py_sub_def py_arith_floats fsub_def round64_small_ints)
  have tx: "calculate_tax_f64 (country example_invoice) (PyFloat (Fin 200))
      = Inr (PyFloat (Fin (7881299347898369 / 2 ^ 49)))"
    using round64_example_tax
    by (simp add: c calculate_tax_f64_def dict_getitem_def dict_get_def TAX_RATE_f64_def
        round64_rate_TH py_mul_def py_arith_floats)
  have sixty: "round64 (of_int 60) = Fin (of_int 60)"
    by (simp add: round64_small_ints)
  have s1: "py_add (PyFloat (Fin 200)) (PyInt 60) = Inr (PyFloat (Fin 260))"
    using py_add_float_int_small [OF sixty, of 200] by (simp add: round64_small_ints)
  have s2: "py_add (PyFloat (Fin 260)) (PyFloat (Fin 10)) = Inr (PyFloat (Fin 270))"
    by (simp add: py_add_def py_arith_floats round64_small_ints)
  have s3: "py_add (PyFloat (Fin 270)) (PyFloat (Fin (7881299347898369 / 2 ^ 49)))
      = Inr (PyFloat (Fin 284))"
    using round64_example_sum by (simp add: py_add_def py_arith_floats)
  have raw: "py_sub (PyFloat (Fin 284)) (PyFloat (Fin 0)) = Inr (PyFloat (Fin 284))"
    by (simp add: py_sub_def py_arith_floats fsub_def round64_small_ints)
  from compute_total_f64_steps
    [OF validate_example_invoice subtotal_example_invoice sh d ta tx s1 s2 s3 raw]
  show ?thesis
    by (simp add: py_lt_def py_gt_def num_val_def)
qed

subsection \<open>The invoices at the limits of binary64\<close>

lemma validate_overflow_invoice: "validate (Some overflow_invoice) = Inr ()"
  by (simp add: validate_def overflow_invoice_def validate_item_def VALID_CATEGORIES_def)

lemma subtotal_overflow_invoice:
  "calculate_subtotal_f64 (items overflow_invoice) = Inr (PyFloat PInf, PyInt 0)"
proof -
  have ten: "round64 (of_int 10) = Fin (of_int 10)"
    by (simp add: round64_small_ints)
  have "round64 (5010420900022432 * 2 ^ 971 * of_int 10) = PInf"
    by (rule round64_overflow) simp
  with py_mul_float_int_small [OF ten, of "5010420900022432 * 2 ^ 971"]
  have a: "py_mul (PyFloat (Fin (5010420900022432 * 2 ^ 971))) (PyInt 10) = Inr (PyFloat PInf)"
    by simp
  have b: "py_add (PyInt 0) (PyFloat PInf) = Inr (PyFloat PInf)"
    by (simp add: py_add_zero_float)
  show ?thesis
    by (simp add: calculate_subtotal_f64_def overflow_invoice_def a [simplified] b
        bind_result_simps)
qed

lemma discount_overflow_invoice:
  "calculate_discount_f64 overflow_invoice (PyFloat PInf) = Inr (PyFloat PInf, [])"
proof -
  have m: "membership overflow_invoice = ''''" and cp: "coupon overflow_invoice = Some ''VIP20''"
    by (simp_all add: overflow_invoice_def)
  have st: "strip ''VIP20'' = ''VIP20''"
    by (simp add: strip_def is_space_def)
  have twenty: "round64 (of_int 20) = Fin (of_int 20)"
    by (simp add: round64_small_ints)
  have a: "py_add (PyFloat (Fin 0)) (PyInt 20) = Inr (PyFloat (Fin 20))"
    using py_add_float_int_small [OF twenty, of 0] by (simp add: round64_small_ints)
  have r: "COUPON_RATE_f64 ''VIP20'' = Some (Fin (3602879701896397 / 2 ^ 54))"
    by (simp add: COUPON_RATE_f64_def round64_rate_VIP20)
  have b: "py_mul (PyFloat PInf) (PyFloat (Fin (3602879701896397 / 2 ^ 54)))
      = Inr (PyFloat PInf)"
    by (simp add: py_mul_def py_arith_floats)
  note b = b [simplified]
  have c: "py_add (PyFloat (Fin 20)) (PyFloat PInf) = Inr (PyFloat PInf)"
    by (simp add: py_add_def py_arith_floats)
  show ?thesis
    by (simp add: calculate_discount_f64_def m cp st r a b c MEMBERSHIP_DISCOUNT_f64_empty
        py_gt_def num_val_def bind_result_simps)
qed

lemma compute_total_f64_overflow_invoice:
  "compute_total_f64 (Some overflow_invoice)
     = Inr (PyFloat NaN, [''Consider membership upgrade''])"
proof -
  have c: "country overflow_invoice = ''TH''" and m: "membership overflow_invoice = ''''"
    by (simp_all add: overflow_invoice_def)
  have sh: "calculate_shipping_f64 (country overflow_invoice) (PyFloat PInf) = Inr (PyInt 0)"
    by (simp add: c calculate_shipping_f64_def dict_getitem_def dict_get_def
        SHIPPING_RULES_f64_def py_lt_def num_val_def)
  have ta: "py_sub (PyFloat PInf) (PyFloat PInf) = Inr (PyFloat NaN)"
    by (simp add: py_sub_def py_arith_floats fsub_def)
  have tx: "calculate_tax_f64 (country overflow_invoice) (PyFloat NaN) = Inr (PyFloat NaN)"
    by (simp add: c calculate_tax_f64_def dict_getitem_def dict_get_def TAX_RATE_f64_def
        py_mul_def py_arith_floats)
  have s1: "py_add (PyFloat PInf) (PyInt 0) = Inr (PyFloat PInf)"
    by (simp add: py_add_def py_arith_def to_double_zero to_double_PyFloat bind_result_simps)
  have s3: "py_add (PyFloat PInf) (PyFloat NaN) = Inr (PyFloat NaN)"
    by (simp add: py_add_def py_arith_floats)
  have raw: "py_sub (PyFloat NaN) (PyFloat PInf) = Inr (PyFloat NaN)"
    by (simp add: py_sub_def py_arith_floats fsub_def)
  from compute_total_f64_steps
    [OF validate_overflow_invoice subtotal_overflow_invoice sh discount_overflow_invoice
      ta tx s1 s1 s3 raw]
  show ?thesis
    by (simp add: py_lt_def py_gt_def num_val_def m MEMBERSHIP_DISCOUNT_f64_empty)
qed

text \<open>
  A quantity too large to become a float: the invoice passes the validation and the
  multiplication by the price raises \<^verbatim>\<open>OverflowError\<close>.
\<close>

lemma huge_quantity_raises:
  "validate (Some huge_quantity_invoice) = Inr ()
   \<and> compute_total_f64 (Some huge_quantity_invoice)
        = Inl (OverflowError ''int too large to convert to float'')"
proof -
  have v: "validate (Some huge_quantity_invoice) = Inr ()"
    by (simp add: validate_def huge_quantity_invoice_def validate_item_def VALID_CATEGORIES_def)
  have "round64 (of_int (10 ^ 400)) = PInf"
    by (rule round64_overflow) simp
  then have "to_double (PyInt (10 ^ 400)) = Inl (OverflowError ''int too large to convert to float'')"
    by (simp add: to_double_def)
  then have "py_mul (PyFloat (Fin (3 / 2))) (PyInt (10 ^ 400))
      = Inl (OverflowError ''int too large to convert to float'')"
    by (simp add: py_mul_def py_arith_def to_double_PyFloat bind_result_simps)
  then have "calculate_subtotal_f64 (items huge_quantity_invoice)
      = Inl (OverflowError ''int too large to convert to float'')"
    by (simp add: calculate_subtotal_f64_def huge_quantity_invoice_def bind_result_simps)
  with v show ?thesis
    by (simp add: compute_total_f64_def bind_result_simps)
qed

section \<open>The claims\<close>

subsection \<open>C1: the end-to-end example\<close>



subsection \<open>C2: the total is never negative\<close>

text \<open>
  C2, as the code has it. When \<^const>\<open>compute_total_f64\<close> returns a total, that total is the
  sum subtotal + shipping + fragile fee + tax - discount of the floats, replaced by
  exactly 0 when the sum is below 0. So the total is never below 0: it is at least 0, or
  it is \<^verbatim>\<open>nan\<close>, which no comparison finds negative and the replacement lets through.
\<close>

theorem total_never_negative:
  assumes "compute_total_f64 inv_opt = Inr (tot, warnings)"
  shows "\<not> py_lt tot (PyInt 0)
       \<and> (tot = PyFloat NaN \<or> py_ge tot (PyInt 0))
       \<and> (\<exists>invoice subtotal fragile_fee shipping discount w taxable_amount tax
              sum1 sum2 sum3 raw.
            inv_opt = Some invoice
          \<and> validate inv_opt = Inr ()
          \<and> calculate_subtotal_f64 (items invoice) = Inr (subtotal, fragile_fee)
          \<and> calculate_shipping_f64 (country invoice) subtotal = Inr shipping
          \<and> calculate_discount_f64 invoice subtotal = Inr (discount, w)
          \<and> py_sub subtotal discount = Inr taxable_amount
          \<and> calculate_tax_f64 (country invoice) taxable_amount = Inr tax
          \<and> py_add subtotal shipping = Inr sum1
          \<and> py_add sum1 fragile_fee = Inr sum2
          \<and> py_add sum2 tax = Inr sum3
          \<and> py_sub sum3 discount = Inr raw
          \<and> tot = (if py_lt raw (PyInt 0) then PyInt 0 else raw))"
proof -
  from assms obtain invoice subtotal fragile_fee shipping discount w taxable_amount tax
      sum1 sum2 sum3 raw
    where parts: "inv_opt = Some invoice" "validate inv_opt = Inr ()"
      "calculate_subtotal_f64 (items invoice) = Inr (subtotal, fragile_fee)"
      "calculate_shipping_f64 (country invoice) subtotal = Inr shipping"
      "calculate_discount_f64 invoice subtotal = Inr (discount, w)"
      "py_sub subtotal discount = Inr taxable_amount"
      "calculate_tax_f64 (country invoice) taxable_amount = Inr tax"
      "py_add subtotal shipping = Inr sum1"
      "py_add sum1 fragile_fee = Inr sum2"
      "py_add sum2 tax = Inr sum3"
      "py_sub sum3 discount = Inr raw"
    and tot: "tot = (if py_lt raw (PyInt 0) then PyInt 0 else raw)"
    by (rule compute_total_f64_InrE)
  have n: "\<not> py_lt tot (PyInt 0)"
    unfolding tot by (rule clamp_not_negative)
  from n have "tot = PyFloat NaN \<or> py_ge tot (PyInt 0)"
    by (rule not_lt_zero_cases)
  with n parts tot show ?thesis by blast
qed

theorem total_never_negative_witness:
  "compute_total_f64 (Some example_invoice) = Inr (PyFloat (Fin 284), [])
   \<and> \<not> py_lt (PyFloat (Fin 284)) (PyInt 0)
   \<and> py_ge (PyFloat (Fin 284)) (PyInt 0)"
proof -
  note r = compute_total_f64_example
  from total_never_negative [OF r] show ?thesis
    using r by simp
qed

text \<open>
  C2 as it was stated fails. The invoice of one item of price \<^verbatim>\<open>1e308\<close>, ten times, with
  the coupon \<^verbatim>\<open>"VIP20"\<close> passes the validation; its subtotal and its discount are
  \<^verbatim>\<open>inf\<close>, the taxable amount \<^verbatim>\<open>inf - inf\<close> is \<^verbatim>\<open>nan\<close>, and the total returned is
  \<^verbatim>\<open>nan\<close>, which is not \<open>\<ge> 0\<close>.
\<close>

theorem overflow_total_nan:
  "validate (Some overflow_invoice) = Inr ()
   \<and> calculate_subtotal_f64 (items overflow_invoice) = Inr (PyFloat PInf, PyInt 0)
   \<and> calculate_discount_f64 overflow_invoice (PyFloat PInf) = Inr (PyFloat PInf, [])
   \<and> py_sub (PyFloat PInf) (PyFloat PInf) = Inr (PyFloat NaN)
   \<and> compute_total_f64 (Some overflow_invoice)
        = Inr (PyFloat NaN, [''Consider membership upgrade''])
   \<and> \<not> py_ge (PyFloat NaN) (PyInt 0)"
  using validate_overflow_invoice subtotal_overflow_invoice discount_overflow_invoice
    compute_total_f64_overflow_invoice
  by (simp add: py_sub_def py_arith_floats fsub_def py_ge_def num_val_def)

subsection \<open>C3: the validation reports every defect\<close>

text \<open>
  C3. For every invalid invoice \<^const>\<open>compute_total\<close> fails with one \<^verbatim>\<open>ValueError\<close>, whose
  message is the list of all the defects of the invoice joined by \<^verbatim>\<open>"; "\<close>: the defects of
  its fields, then those of every item (empty sku, qty \<open>\<le> 0\<close>, negative price, unknown
  category). Every defect is in the list, the list has as many entries as there are defects,
  and the message of each is a substring of the error message: the validation does not stop
  at the first defect.
\<close>

theorem validation_reports_every_defect:
  assumes "invalid_invoice inv_opt"
  shows "all_defects inv_opt \<noteq> []
       \<and> compute_total inv_opt = Inl (ValueError (join ''; '' (all_defects inv_opt)))
       \<and> (\<forall>p \<in> set (all_defects inv_opt). sublist p (join ''; '' (all_defects inv_opt)))
       \<and> (inv_opt = None \<longrightarrow> all_defects inv_opt = [''Invoice is missing''])
       \<and> (\<forall>invoice. inv_opt = Some invoice \<longrightarrow>
            (invoice_id invoice = [] \<longrightarrow> ''Missing invoice_id'' \<in> set (all_defects inv_opt))
          \<and> (customer_id invoice = [] \<longrightarrow> ''Missing customer_id'' \<in> set (all_defects inv_opt))
          \<and> (items invoice = [] \<longrightarrow> ''Invoice must contain items'' \<in> set (all_defects inv_opt))
          \<and> (\<forall>item \<in> set (items invoice).
                (sku item = [] \<longrightarrow> ''Item sku is missing'' \<in> set (all_defects inv_opt))
              \<and> (qty item \<le> 0 \<longrightarrow> ''Invalid qty for '' @ sku item \<in> set (all_defects inv_opt))
              \<and> (unit_price item < 0 \<longrightarrow>
                    ''Invalid price for '' @ sku item \<in> set (all_defects inv_opt))
              \<and> (category item \<notin> {''book'', ''food'', ''electronics'', ''other''} \<longrightarrow>
                    ''Unknown category for '' @ sku item \<in> set (all_defects inv_opt)))
          \<and> length (all_defects inv_opt) =
              (if invoice_id invoice = [] then 1 else 0)
            + (if customer_id invoice = [] then 1 else 0)
            + (if items invoice = [] then 1 else 0)
            + (\<Sum>item\<leftarrow>items invoice.
                  (if sku item = [] then 1 else 0) + (if qty item \<le> 0 then 1 else 0)
                + (if unit_price item < 0 then 1 else 0)
                + (if category item \<notin> {''book'', ''food'', ''electronics'', ''other''}
                   then 1 else 0)))"
proof -
  have ne: "all_defects inv_opt \<noteq> []"
    using assms by (simp add: all_defects_Nil_iff)
  then have "validate inv_opt = Inl (ValueError (join ''; '' (all_defects inv_opt)))"
    by (simp add: validate_eq)
  then have ct: "compute_total inv_opt = Inl (ValueError (join ''; '' (all_defects inv_opt)))"
    by (rule compute_total_invalid)
  have sub: "\<forall>p \<in> set (all_defects inv_opt). sublist p (join ''; '' (all_defects inv_opt))"
    by (simp add: sublist_join)
  have none: "inv_opt = None \<longrightarrow> all_defects inv_opt = [''Invoice is missing'']"
    by (simp add: all_defects_def)
  have fields: "(invoice_id invoice = [] \<longrightarrow> ''Missing invoice_id'' \<in> set (all_defects (Some invoice)))
          \<and> (customer_id invoice = [] \<longrightarrow> ''Missing customer_id'' \<in> set (all_defects (Some invoice)))
          \<and> (items invoice = [] \<longrightarrow> ''Invoice must contain items'' \<in> set (all_defects (Some invoice)))"
    for invoice
    by (simp add: all_defects_def field_defects_def)
  have its: "(sku item = [] \<longrightarrow> ''Item sku is missing'' \<in> set (all_defects (Some invoice)))
              \<and> (qty item \<le> 0 \<longrightarrow> ''Invalid qty for '' @ sku item \<in> set (all_defects (Some invoice)))
              \<and> (unit_price item < 0 \<longrightarrow>
                    ''Invalid price for '' @ sku item \<in> set (all_defects (Some invoice)))
              \<and> (category item \<notin> {''book'', ''food'', ''electronics'', ''other''} \<longrightarrow>
                    ''Unknown category for '' @ sku item \<in> set (all_defects (Some invoice)))"
    if "item \<in> set (items invoice)" for item invoice
  proof -
    have "set (item_defects item) \<subseteq> set (all_defects (Some invoice))"
      using that by (auto simp: all_defects_def)
    moreover have "(sku item = [] \<longrightarrow> ''Item sku is missing'' \<in> set (item_defects item))
              \<and> (qty item \<le> 0 \<longrightarrow> ''Invalid qty for '' @ sku item \<in> set (item_defects item))
              \<and> (unit_price item < 0 \<longrightarrow>
                    ''Invalid price for '' @ sku item \<in> set (item_defects item))
              \<and> (category item \<notin> {''book'', ''food'', ''electronics'', ''other''} \<longrightarrow>
                    ''Unknown category for '' @ sku item \<in> set (item_defects item))"
      by (simp add: item_defects_def)
    ultimately show ?thesis by blast
  qed
  have len_item: "length (item_defects item) =
      (if sku item = [] then 1 else 0) + (if qty item \<le> 0 then 1 else 0)
                + (if unit_price item < 0 then 1 else 0)
                + (if category item \<notin> {''book'', ''food'', ''electronics'', ''other''}
                   then 1 else 0)" for item
    by (simp add: item_defects_def)
  have len_items: "length (concat (map item_defects xs)) = (\<Sum>item\<leftarrow>xs. length (item_defects item))"
    for xs
    by (induction xs) simp_all
  have len: "length (all_defects (Some invoice)) =
              (if invoice_id invoice = [] then 1 else 0)
            + (if customer_id invoice = [] then 1 else 0)
            + (if items invoice = [] then 1 else 0)
            + (\<Sum>item\<leftarrow>items invoice.
                  (if sku item = [] then 1 else 0) + (if qty item \<le> 0 then 1 else 0)
                + (if unit_price item < 0 then 1 else 0)
                + (if category item \<notin> {''book'', ''food'', ''electronics'', ''other''}
                   then 1 else 0))" for invoice
    unfolding len_item [symmetric]
    by (simp add: all_defects_def field_defects_def len_items)
  show ?thesis
    using ne ct sub none fields its len by blast
qed


theorem validation_reports_every_defect_witness:
  "invalid_invoice (Some broken_invoice)
   \<and> compute_total (Some broken_invoice) = Inl (ValueError
       ''Missing invoice_id; Invalid qty for A; Invalid price for A; Item sku is missing; Unknown category for '')"
proof -
  have i: "invalid_invoice (Some broken_invoice)"
    by (simp add: invalid_invoice_def broken_invoice_def)
  have "all_defects (Some broken_invoice) =
      [''Missing invoice_id'', ''Invalid qty for A'', ''Invalid price for A'',
       ''Item sku is missing'', ''Unknown category for '']"
    by (simp add: all_defects_def field_defects_def item_defects_def broken_invoice_def)
  with validation_reports_every_defect [OF i] i show ?thesis by simp
qed

subsection \<open>C4: a coupon with surrounding whitespace\<close>

text \<open>
  C4, as the code has it. For a validated invoice with subtotal 1000 and a membership that
  is neither \<^verbatim>\<open>"gold"\<close> nor \<^verbatim>\<open>"platinum"\<close>, the whitespace around the coupon is trimmed and
  the trimmed code is looked up as it is written: the coupon \<^verbatim>\<open>"VIP20 "\<close> is trimmed to
  \<^verbatim>\<open>"VIP20"\<close>, earns the rate 0.20, and the discount is 200 with no warning; the coupon
  \<^verbatim>\<open>"vip20 "\<close> is trimmed to \<^verbatim>\<open>"vip20"\<close>, which is not a key of the table, so that the
  discount is 0 and the warning \<^verbatim>\<open>"Unknown coupon"\<close> is given.
\<close>

theorem coupon_trimmed_case_sensitive:
  assumes "validate (Some invoice) = Inr ()"
    and "fst (calculate_subtotal (items invoice)) = 1000"
    and "membership invoice \<noteq> ''gold''" and "membership invoice \<noteq> ''platinum''"
  shows "(coupon invoice = Some ''VIP20 '' \<longrightarrow>
            strip ''VIP20 '' = ''VIP20'' \<and> COUPON_RATE (strip ''VIP20 '') = Some (20 / 100)
          \<and> calculate_discount invoice 1000 = (200, [])
          \<and> (\<exists>total. compute_total (Some invoice) = Inr (total, [])))
       \<and> (coupon invoice = Some ''vip20 '' \<longrightarrow>
            strip ''vip20 '' = ''vip20'' \<and> COUPON_RATE (strip ''vip20 '') = None
          \<and> calculate_discount invoice 1000 = (0, [''Unknown coupon''])
          \<and> (\<exists>total. compute_total (Some invoice) = Inr (total, [''Unknown coupon''])))"
proof -
  obtain F where s: "calculate_subtotal (items invoice) = (1000, F)"
    using assms(2) by (cases "calculate_subtotal (items invoice)") simp
  obtain Sh where sh: "calculate_shipping (country invoice) 1000 = Inr Sh"
    by (simp add: calculate_shipping_eq)
  have m: "MEMBERSHIP_DISCOUNT (membership invoice) = None"
    using assms(3,4) by (simp add: MEMBERSHIP_DISCOUNT_eq)
  have upper: ?thesis if c: "coupon invoice = Some ''VIP20 ''"
  proof -
    have d: "calculate_discount invoice 1000 = (200, [])"
      by (simp add: calculate_discount_def c m strip_VIP20 COUPON_RATE_eq)
    obtain T where t: "calculate_tax (country invoice) (1000 - 200) = Inr T"
      by (simp add: calculate_tax_eq)
    have "\<exists>total. compute_total (Some invoice) = Inr (total, [])"
      using compute_total_valid [OF assms(1) s d sh t] by simp
    with d c show ?thesis by (simp add: strip_VIP20 COUPON_RATE_eq)
  qed
  have lower: ?thesis if c: "coupon invoice = Some ''vip20 ''"
  proof -
    have d: "calculate_discount invoice 1000 = (0, [''Unknown coupon''])"
      by (simp add: calculate_discount_def c m strip_vip20_lower COUPON_RATE_eq)
    obtain T where t: "calculate_tax (country invoice) (1000 - 0) = Inr T"
      by (simp add: calculate_tax_eq)
    have "\<exists>total. compute_total (Some invoice) = Inr (total, [''Unknown coupon''])"
      using compute_total_valid [OF assms(1) s d sh t] by simp
    with d c show ?thesis by (simp add: strip_vip20_lower COUPON_RATE_eq)
  qed
  show ?thesis
    using upper lower by blast
qed

theorem coupon_trimmed_case_sensitive_witness:
  "calculate_discount (simple_invoice ''TH'' '''' (Some ''VIP20 '') 1000) 1000 = (200, [])
   \<and> (\<exists>total. compute_total (Some (simple_invoice ''TH'' '''' (Some ''VIP20 '') 1000))
         = Inr (total, []))"
proof -
  let ?inv = "simple_invoice ''TH'' '''' (Some ''VIP20 '') 1000"
  have v: "validate (Some ?inv) = Inr ()"
    by (simp add: validate_simple_invoice)
  have s: "fst (calculate_subtotal (items ?inv)) = 1000"
    by (simp add: subtotal_simple_invoice)
  have m: "membership ?inv \<noteq> ''gold''" "membership ?inv \<noteq> ''platinum''"
    by (simp_all add: simple_invoice_def)
  have c: "coupon ?inv = Some ''VIP20 ''"
    by (simp add: simple_invoice_def)
  from coupon_trimmed_case_sensitive [OF v s m] c show ?thesis by blast
qed

text \<open>
  C4 as it was stated fails: with the coupon \<^verbatim>\<open>"vip20 "\<close> on a validated invoice of subtotal
  1000 without membership, the discount is 0, not 200, and \<^const>\<open>compute_total\<close> returns the
  warning \<^verbatim>\<open>"Unknown coupon"\<close> (with the total 1000 + 70 of tax).
\<close>

theorem lowercase_coupon_counterexample:
  "validate (Some (simple_invoice ''TH'' '''' (Some ''vip20 '') 1000)) = Inr ()
   \<and> calculate_subtotal (items (simple_invoice ''TH'' '''' (Some ''vip20 '') 1000)) = (1000, 0)
   \<and> strip ''vip20 '' = ''vip20''
   \<and> COUPON_RATE (strip ''vip20 '') = None
   \<and> calculate_discount (simple_invoice ''TH'' '''' (Some ''vip20 '') 1000) 1000
        = (0, [''Unknown coupon''])
   \<and> fst (calculate_discount (simple_invoice ''TH'' '''' (Some ''vip20 '') 1000) 1000) \<noteq> 200
   \<and> compute_total (Some (simple_invoice ''TH'' '''' (Some ''vip20 '') 1000))
        = Inr (1070, [''Unknown coupon''])"
proof -
  let ?inv = "simple_invoice ''TH'' '''' (Some ''vip20 '') 1000"
  have v: "validate (Some ?inv) = Inr ()"
    by (simp add: validate_simple_invoice)
  have s: "calculate_subtotal (items ?inv) = (1000, 0)"
    by (simp add: subtotal_simple_invoice)
  have c: "COUPON_RATE (strip ''vip20 '') = None"
    by (simp add: strip_vip20_lower COUPON_RATE_eq)
  have d: "calculate_discount ?inv 1000 = (0, [''Unknown coupon''])"
    by (simp add: calculate_discount_def c simple_invoice_def MEMBERSHIP_DISCOUNT_eq)
  have sh: "calculate_shipping (country ?inv) 1000 = Inr 0"
    by (simp add: calculate_shipping_eq simple_invoice_def)
  have t: "calculate_tax (country ?inv) (1000 - 0) = Inr 70"
    by (simp add: calculate_tax_eq simple_invoice_def)
  have "compute_total (Some ?inv) = Inr (1070, [''Unknown coupon''])"
    using compute_total_valid [OF v s d sh t] by simp
  with v s c d show ?thesis by (simp add: strip_vip20_lower)
qed

subsection \<open>C5: a membership excludes the flat bonus\<close>

text \<open>
  C5. When the membership is \<^verbatim>\<open>"gold"\<close> or \<^verbatim>\<open>"platinum"\<close>, the discount is 3% or 5% of the
  subtotal plus what the coupon earns, for every subtotal: the flat bonus of 20 is not part
  of it, also above 3000. Without coupon the discount is that percentage alone; for
  \<^verbatim>\<open>"platinum"\<close>, subtotal 4000 and no coupon it is exactly 200.
\<close>

theorem membership_excludes_flat_bonus:
  assumes "membership invoice = ''gold'' \<or> membership invoice = ''platinum''"
  shows "fst (calculate_discount invoice S) =
           S * (if membership invoice = ''gold'' then 3 / 100 else 5 / 100)
         + (case coupon invoice of
              None \<Rightarrow> 0
            | Some c \<Rightarrow> if c = [] then 0
                        else (case COUPON_RATE (strip c) of None \<Rightarrow> 0 | Some r \<Rightarrow> S * r))
       \<and> (coupon invoice = None \<longrightarrow>
            calculate_discount invoice S =
              (S * (if membership invoice = ''gold'' then 3 / 100 else 5 / 100), []))
       \<and> (coupon invoice = None \<and> membership invoice = ''platinum'' \<longrightarrow>
            calculate_discount invoice 4000 = (200, []))"
  using assms
  by (auto simp: calculate_discount_def MEMBERSHIP_DISCOUNT_eq Let_def split: option.splits)

theorem membership_excludes_flat_bonus_witness:
  "calculate_discount (simple_invoice ''US'' ''platinum'' None 4000) 4000 = (200, [])
   \<and> fst (calculate_discount (simple_invoice ''US'' ''gold'' (Some ''STUDENT5'') 4000) 4000) = 320"
proof -
  have p: "membership (simple_invoice ''US'' ''platinum'' None 4000) = ''gold''
         \<or> membership (simple_invoice ''US'' ''platinum'' None 4000) = ''platinum''"
    by (simp add: simple_invoice_def)
  have g: "membership (simple_invoice ''US'' ''gold'' (Some ''STUDENT5'') 4000) = ''gold''
         \<or> membership (simple_invoice ''US'' ''gold'' (Some ''STUDENT5'') 4000) = ''platinum''"
    by (simp add: simple_invoice_def)
  have st: "strip ''STUDENT5'' = ''STUDENT5''"
    by (simp add: strip_def is_space_def)
  from membership_excludes_flat_bonus [OF p, of 4000]
  have 1: "calculate_discount (simple_invoice ''US'' ''platinum'' None 4000) 4000 = (200, [])"
    by (simp add: simple_invoice_def)
  from membership_excludes_flat_bonus [OF g, of 4000]
  have 2: "fst (calculate_discount (simple_invoice ''US'' ''gold'' (Some ''STUDENT5'') 4000) 4000) = 320"
    by (simp add: simple_invoice_def st COUPON_RATE_eq)
  from 1 2 show ?thesis by simp
qed

subsection \<open>C6: the shipping fee of the country US\<close>

text \<open>
  C6. For the country \<^verbatim>\<open>"US"\<close> the shipping fee is 15 below a subtotal of 100, 8 from 100
  and below 300, and 0 from 300; in particular it is 15 at 99.99, 8 at 100 and at 299.99,
  and 0 at 300. The lookup never fails.
\<close>

theorem us_shipping_steps:
  "calculate_shipping ''US'' S = Inr (if S < 100 then 15 else if S < 300 then 8 else 0)
   \<and> calculate_shipping ''US'' (9999 / 100) = Inr 15
   \<and> calculate_shipping ''US'' 100 = Inr 8
   \<and> calculate_shipping ''US'' (29999 / 100) = Inr 8
   \<and> calculate_shipping ''US'' 300 = Inr 0"
  by (simp add: calculate_shipping_eq)

subsection \<open>C7: the tax on the discounted amount\<close>

text \<open>
  C7. The tax of an amount is the amount times the rate of the country (0.07 for
  \<^verbatim>\<open>"TH"\<close>, 0.10 for \<^verbatim>\<open>"JP"\<close>, 0.08 for \<^verbatim>\<open>"US"\<close>, 0.05 otherwise), for every amount: nothing
  is clamped, so a discount above the subtotal gives a negative taxable amount and a
  negative tax. For a validated invoice \<^const>\<open>compute_total\<close> takes the tax of subtotal minus
  discount and puts it into the sum as it is, before the sum is clamped at 0.
\<close>

theorem tax_on_unclamped_base:
  "calculate_tax c a =
     Inr (a * (if c = ''TH'' then 7 / 100 else if c = ''JP'' then 10 / 100
               else if c = ''US'' then 8 / 100 else 5 / 100))
   \<and> (D > S \<longrightarrow> S - D < 0 \<and> (\<exists>tax. calculate_tax c (S - D) = Inr tax \<and> tax < 0))
   \<and> (validate (Some invoice) = Inr () \<longrightarrow>
        (\<exists>subtotal fragile_fee discount warnings shipping tax w.
            calculate_subtotal (items invoice) = (subtotal, fragile_fee)
          \<and> calculate_discount invoice subtotal = (discount, warnings)
          \<and> calculate_shipping (country invoice) subtotal = Inr shipping
          \<and> calculate_tax (country invoice) (subtotal - discount) = Inr tax
          \<and> tax = (subtotal - discount) *
                    (if country invoice = ''TH'' then 7 / 100
                     else if country invoice = ''JP'' then 10 / 100
                     else if country invoice = ''US'' then 8 / 100 else 5 / 100)
          \<and> compute_total (Some invoice) =
               Inr (if subtotal + shipping + fragile_fee + tax - discount < 0 then 0
                    else subtotal + shipping + fragile_fee + tax - discount, w)))"
proof -
  have 1: "calculate_tax c a =
     Inr (a * (if c = ''TH'' then 7 / 100 else if c = ''JP'' then 10 / 100
               else if c = ''US'' then 8 / 100 else 5 / 100))"
    by (rule calculate_tax_eq)
  have 2: "D > S \<longrightarrow> S - D < 0 \<and> (\<exists>tax. calculate_tax c (S - D) = Inr tax \<and> tax < 0)"
    by (simp add: calculate_tax_eq mult_neg_pos)
  have 3: "\<exists>subtotal fragile_fee discount warnings shipping tax w.
            calculate_subtotal (items invoice) = (subtotal, fragile_fee)
          \<and> calculate_discount invoice subtotal = (discount, warnings)
          \<and> calculate_shipping (country invoice) subtotal = Inr shipping
          \<and> calculate_tax (country invoice) (subtotal - discount) = Inr tax
          \<and> tax = (subtotal - discount) *
                    (if country invoice = ''TH'' then 7 / 100
                     else if country invoice = ''JP'' then 10 / 100
                     else if country invoice = ''US'' then 8 / 100 else 5 / 100)
          \<and> compute_total (Some invoice) =
               Inr (if subtotal + shipping + fragile_fee + tax - discount < 0 then 0
                    else subtotal + shipping + fragile_fee + tax - discount, w)"
    if v: "validate (Some invoice) = Inr ()"
  proof -
    obtain S F where s: "calculate_subtotal (items invoice) = (S, F)" by fastforce
    obtain D W where d: "calculate_discount invoice S = (D, W)" by fastforce
    obtain Sh where sh: "calculate_shipping (country invoice) S = Inr Sh"
      by (simp add: calculate_shipping_eq)
    note t = calculate_tax_eq [of "country invoice" "S - D"]
    note ct = compute_total_valid [OF v s d sh t]
    show ?thesis
      using s d sh t ct by blast
  qed
  from 1 2 3 show ?thesis by blast
qed

theorem tax_on_unclamped_base_witness:
  "calculate_tax ''JP'' (100 - 300) = Inr (- 20)
   \<and> (\<exists>w. compute_total (Some (simple_invoice ''JP'' ''gold'' None 1000)) = Inr (1667, w))"
proof -
  let ?inv = "simple_invoice ''JP'' ''gold'' None 1000"
  have v: "validate (Some ?inv) = Inr ()"
    by (simp add: validate_simple_invoice)
  note th = tax_on_unclamped_base [of "''JP''" "100 - 300" 100 300 ?inv]
  have 1: "calculate_tax ''JP'' (100 - 300) = Inr (- 20)"
    using th by simp
  have d: "calculate_discount ?inv 1000 = (30, [])"
    by (simp add: calculate_discount_def MEMBERSHIP_DISCOUNT_eq simple_invoice_def)
  have sh: "calculate_shipping ''JP'' 1000 = Inr 600"
    by (simp add: calculate_shipping_eq)
  have c: "country ?inv = ''JP''" by (simp add: simple_invoice_def)
  have 2: "\<exists>w. compute_total (Some ?inv) = Inr (1667, w)"
    using th v by (auto simp: subtotal_simple_invoice d sh c)
  from 1 2 show ?thesis by simp
qed

subsection \<open>C8: the membership-upgrade warning\<close>

text \<open>
  C8. In the warnings that \<^const>\<open>compute_total\<close> returns, \<^verbatim>\<open>"Consider membership upgrade"\<close>
  occurs if and only if the subtotal is above 10000 and the membership is neither
  \<^verbatim>\<open>"gold"\<close> nor \<^verbatim>\<open>"platinum"\<close>. The warnings are those of the discount followed by this
  one, so when \<^verbatim>\<open>"Unknown coupon"\<close> is given as well, the list is the coupon warning first
  and the upgrade warning second.
\<close>

theorem upgrade_warning_last:
  assumes "compute_total (Some invoice) = Inr (tot, warnings)"
  shows "(''Consider membership upgrade'' \<in> set warnings \<longleftrightarrow>
            fst (calculate_subtotal (items invoice)) > 10000
          \<and> membership invoice \<noteq> ''gold'' \<and> membership invoice \<noteq> ''platinum'')
       \<and> warnings =
            snd (calculate_discount invoice (fst (calculate_subtotal (items invoice))))
            @ (if fst (calculate_subtotal (items invoice)) > 10000
                  \<and> membership invoice \<noteq> ''gold'' \<and> membership invoice \<noteq> ''platinum''
               then [''Consider membership upgrade''] else [])
       \<and> (''Unknown coupon'' \<in> set warnings \<and> ''Consider membership upgrade'' \<in> set warnings
            \<longrightarrow> warnings = [''Unknown coupon'', ''Consider membership upgrade''])"
proof -
  note v = compute_total_Inr_validated [OF assms]
  obtain S F where s: "calculate_subtotal (items invoice) = (S, F)" by fastforce
  obtain D W where d: "calculate_discount invoice S = (D, W)" by fastforce
  note sh = calculate_shipping_eq [of "country invoice" S]
  note t = calculate_tax_eq [of "country invoice" "S - D"]
  note ct = compute_total_valid [OF v s d sh t]
  have w: "warnings = W @ (if S > 10000 \<and> membership invoice \<noteq> ''gold''
              \<and> membership invoice \<noteq> ''platinum'' then [''Consider membership upgrade''] else [])"
    using ct assms by (simp add: MEMBERSHIP_DISCOUNT_eq split: if_splits)
  have W: "W = [] \<or> W = [''Unknown coupon'']"
    using calculate_discount_warnings [of invoice S] d by simp
  from w W show ?thesis
    by (auto simp: s d)
qed

theorem upgrade_warning_last_witness:
  "compute_total (Some (simple_invoice ''TH'' ''silver'' (Some ''XYZ'') 10001))
     = Inr (1067967 / 100, [''Unknown coupon'', ''Consider membership upgrade''])"
proof -
  let ?inv = "simple_invoice ''TH'' ''silver'' (Some ''XYZ'') 10001"
  have v: "validate (Some ?inv) = Inr ()"
    by (simp add: validate_simple_invoice)
  have st: "strip ''XYZ'' = ''XYZ''"
    by (simp add: strip_def is_space_def)
  have d: "calculate_discount ?inv 10001 = (20, [''Unknown coupon''])"
    by (simp add: calculate_discount_def MEMBERSHIP_DISCOUNT_eq COUPON_RATE_eq st simple_invoice_def)
  have sh: "calculate_shipping (country ?inv) 10001 = Inr 0"
    by (simp add: calculate_shipping_eq simple_invoice_def)
  have t: "calculate_tax (country ?inv) (10001 - 20) = Inr (69867 / 100)"
    by (simp add: calculate_tax_eq simple_invoice_def)
  have ct: "compute_total (Some ?inv)
     = Inr (1067967 / 100, [''Unknown coupon'', ''Consider membership upgrade''])"
    using compute_total_valid [OF v subtotal_simple_invoice d sh t]
    by (simp add: MEMBERSHIP_DISCOUNT_eq simple_invoice_def)
  from upgrade_warning_last [OF ct] ct show ?thesis by simp
qed

subsection \<open>C9: the empty coupon\<close>

text \<open>
  C9. An invoice whose coupon is the empty string is treated as the same invoice without
  coupon: the discount and its warnings are the same, namely the membership or high-value
  part alone and no warning, so \<^verbatim>\<open>"Unknown coupon"\<close> is not given, and \<^const>\<open>compute_total\<close>
  gives the same result.
\<close>

theorem empty_coupon_as_absent:
  assumes "coupon invoice = Some ''''"
  shows "calculate_discount invoice S = calculate_discount (invoice\<lparr>coupon := None\<rparr>) S
       \<and> calculate_discount invoice S =
           (case MEMBERSHIP_DISCOUNT (membership invoice) of
              Some r \<Rightarrow> S * r
            | None \<Rightarrow> if S > 3000 then 20 else 0, [])
       \<and> ''Unknown coupon'' \<notin> set (snd (calculate_discount invoice S))
       \<and> compute_total (Some invoice) = compute_total (Some (invoice\<lparr>coupon := None\<rparr>))"
proof -
  have d: "calculate_discount invoice S = calculate_discount (invoice\<lparr>coupon := None\<rparr>) S" for S
    using assms by (simp add: calculate_discount_def)
  have e: "calculate_discount invoice S =
           (case MEMBERSHIP_DISCOUNT (membership invoice) of
              Some r \<Rightarrow> S * r
            | None \<Rightarrow> if S > 3000 then 20 else 0, [])"
    using assms by (simp add: calculate_discount_def split: option.splits)
  have c: "compute_total (Some invoice) = compute_total (Some (invoice\<lparr>coupon := None\<rparr>))"
    by (rule compute_total_cong) (simp_all add: validate_def d)
  from d e c show ?thesis by simp
qed

theorem empty_coupon_as_absent_witness:
  "calculate_discount (simple_invoice ''US'' '''' (Some '''') 3500) 3500 = (20, [])
   \<and> compute_total (Some (simple_invoice ''US'' '''' (Some '''') 3500))
       = compute_total (Some (simple_invoice ''US'' '''' None 3500))"
proof -
  let ?inv = "simple_invoice ''US'' '''' (Some '''') 3500"
  have c: "coupon ?inv = Some ''''"
    by (simp add: simple_invoice_def)
  note th = empty_coupon_as_absent [OF c, of 3500]
  have m: "MEMBERSHIP_DISCOUNT (membership ?inv) = None"
    by (simp add: simple_invoice_def MEMBERSHIP_DISCOUNT_eq)
  have 1: "calculate_discount ?inv 3500 = (20, [])"
    using th [THEN conjunct2, THEN conjunct1] by (simp add: m)
  have u: "?inv\<lparr>coupon := None\<rparr> = simple_invoice ''US'' '''' None 3500"
    by (simp add: simple_invoice_def)
  have 2: "compute_total (Some ?inv) = compute_total (Some (simple_invoice ''US'' '''' None 3500))"
    using th [THEN conjunct2, THEN conjunct2, THEN conjunct2] by (simp only: u)
  from 1 2 show ?thesis by simp
qed

subsection \<open>C10: the lookups are case-sensitive\<close>

text \<open>
  C10. A country that differs only in letter case from a key of the shipping or tax table
  (as \<^verbatim>\<open>"th"\<close> from \<^verbatim>\<open>"TH"\<close>) gets the DEFAULT shipping rule, 25 below a subtotal of 200
  and 0 from there, and the DEFAULT tax rate 0.05. A code that differs only in letter case
  from a key of the coupon table is not in that table. A membership that differs only in
  letter case from \<^verbatim>\<open>"gold"\<close> or \<^verbatim>\<open>"platinum"\<close> (as \<^verbatim>\<open>"Gold"\<close>) is not in the membership
  table: the invoice is treated as the same invoice with the membership \<^verbatim>\<open>""\<close>, so that
  without coupon its discount is the flat bonus of 20 above 3000 and 0 otherwise, and the
  result of \<^const>\<open>compute_total\<close> carries \<^verbatim>\<open>"Consider membership upgrade"\<close> whenever the
  subtotal is above 10000.
\<close>

theorem lookups_case_sensitive:
  "(differs_only_in_case c k \<and> k \<in> dom SHIPPING_RULES \<longrightarrow>
      calculate_shipping c S = Inr (if S < 200 then 25 else 0))
 \<and> (differs_only_in_case c k \<and> k \<in> dom TAX_RATE \<longrightarrow>
      calculate_tax c A = Inr (A * (5 / 100)))
 \<and> (differs_only_in_case code kc \<and> kc \<in> dom COUPON_RATE \<longrightarrow> COUPON_RATE code = None)
 \<and> (differs_only_in_case (membership invoice) m \<and> m \<in> dom MEMBERSHIP_DISCOUNT \<longrightarrow>
      MEMBERSHIP_DISCOUNT (membership invoice) = None
    \<and> calculate_discount invoice S = calculate_discount (invoice\<lparr>membership := ''''\<rparr>) S
    \<and> (coupon invoice = None \<longrightarrow>
         calculate_discount invoice S = (if S > 3000 then 20 else 0, []))
    \<and> compute_total (Some invoice) = compute_total (Some (invoice\<lparr>membership := ''''\<rparr>))
    \<and> (\<forall>tot warnings.
          compute_total (Some invoice) = Inr (tot, warnings)
          \<and> fst (calculate_subtotal (items invoice)) > 10000
          \<longrightarrow> ''Consider membership upgrade'' \<in> set warnings))"
proof -
  have ship: "calculate_shipping c S = Inr (if S < 200 then 25 else 0)"
    if "differs_only_in_case c k" "k \<in> dom SHIPPING_RULES"
    using country_variant_not_key [of c k] that
    by (simp add: dom_SHIPPING_RULES calculate_shipping_eq)
  have tax: "calculate_tax c A = Inr (A * (5 / 100))"
    if "differs_only_in_case c k" "k \<in> dom TAX_RATE"
    using country_variant_not_key [of c k] that
    by (simp add: dom_TAX_RATE calculate_tax_eq)
  have cpn: "COUPON_RATE code = None"
    if "differs_only_in_case code kc" "kc \<in> dom COUPON_RATE"
    using coupon_variant_not_key [of code kc] that
    by (simp add: dom_COUPON_RATE COUPON_RATE_eq)
  have mem: "MEMBERSHIP_DISCOUNT (membership invoice) = None
    \<and> calculate_discount invoice S = calculate_discount (invoice\<lparr>membership := ''''\<rparr>) S
    \<and> (coupon invoice = None \<longrightarrow>
         calculate_discount invoice S = (if S > 3000 then 20 else 0, []))
    \<and> compute_total (Some invoice) = compute_total (Some (invoice\<lparr>membership := ''''\<rparr>))
    \<and> (\<forall>tot warnings.
          compute_total (Some invoice) = Inr (tot, warnings)
          \<and> fst (calculate_subtotal (items invoice)) > 10000
          \<longrightarrow> ''Consider membership upgrade'' \<in> set warnings)"
    if "differs_only_in_case (membership invoice) m" "m \<in> dom MEMBERSHIP_DISCOUNT"
  proof -
    have "membership invoice \<notin> {''gold'', ''platinum''}"
      using membership_variant_not_key [of "membership invoice" m] that
      by (simp add: dom_MEMBERSHIP_DISCOUNT)
    then have none: "MEMBERSHIP_DISCOUNT (membership invoice) = None"
      by (simp add: MEMBERSHIP_DISCOUNT_eq)
    have none': "MEMBERSHIP_DISCOUNT (membership (invoice\<lparr>membership := ''''\<rparr>)) = None"
      by (simp add: MEMBERSHIP_DISCOUNT_eq)
    have d: "calculate_discount invoice S = calculate_discount (invoice\<lparr>membership := ''''\<rparr>) S"
      for S
      using none none' by (simp add: calculate_discount_def)
    have dn: "calculate_discount invoice S = (if S > 3000 then 20 else 0, [])"
      if "coupon invoice = None"
      using none that by (simp add: calculate_discount_def)
    have e: "MEMBERSHIP_DISCOUNT [] = None"
      by (simp add: MEMBERSHIP_DISCOUNT_eq)
    have ct: "compute_total (Some invoice) = compute_total (Some (invoice\<lparr>membership := ''''\<rparr>))"
      by (rule compute_total_cong) (simp_all add: validate_def d none e)
    have w: "''Consider membership upgrade'' \<in> set warnings"
      if r: "compute_total (Some invoice) = Inr (tot, warnings)"
        and big: "fst (calculate_subtotal (items invoice)) > 10000" for tot warnings
    proof -
      note v = compute_total_Inr_validated [OF r]
      obtain S' F where s: "calculate_subtotal (items invoice) = (S', F)" by fastforce
      obtain D W where dw: "calculate_discount invoice S' = (D, W)" by fastforce
      note sh = calculate_shipping_eq [of "country invoice" S']
      note t = calculate_tax_eq [of "country invoice" "S' - D"]
      from compute_total_valid [OF v s dw sh t] r big s none
      show ?thesis by auto
    qed
    from none d dn ct w show ?thesis by blast
  qed
  from ship tax cpn mem show ?thesis by blast
qed

theorem lookups_case_sensitive_witness:
  "differs_only_in_case ''th'' ''TH'' \<and> differs_only_in_case ''Gold'' ''gold''
   \<and> calculate_shipping ''th'' 100 = Inr 25
   \<and> calculate_tax ''th'' 100 = Inr 5
   \<and> differs_only_in_case ''vip20'' ''VIP20'' \<and> COUPON_RATE ''vip20'' = None
   \<and> calculate_discount (simple_invoice ''us'' ''Gold'' None 10001) 10001 = (20, [])
   \<and> compute_total (Some (simple_invoice ''us'' ''Gold'' None 10001))
       = Inr (1048005 / 100, [''Consider membership upgrade''])"
proof -
  let ?inv = "simple_invoice ''us'' ''Gold'' None 10001"
  have c: "differs_only_in_case ''th'' ''TH''"
    by (simp add: differs_only_in_case_def ascii_lower_def)
  have g: "differs_only_in_case (membership ?inv) ''gold''"
    by (simp add: differs_only_in_case_def ascii_lower_def simple_invoice_def)
  have v: "differs_only_in_case ''vip20'' ''VIP20''"
    by (simp add: differs_only_in_case_def ascii_lower_def)
  have k: "''TH'' \<in> dom SHIPPING_RULES" "''TH'' \<in> dom TAX_RATE"
    "''gold'' \<in> dom MEMBERSHIP_DISCOUNT" "''VIP20'' \<in> dom COUPON_RATE"
    by (simp_all add: dom_SHIPPING_RULES dom_TAX_RATE dom_MEMBERSHIP_DISCOUNT dom_COUPON_RATE)
  have n: "coupon ?inv = None"
    by (simp add: simple_invoice_def)
  note th = lookups_case_sensitive [of "''th''" "''TH''" 100 100 "''vip20''" "''VIP20''" ?inv "''gold''"]
  note th' = lookups_case_sensitive [of "''th''" "''TH''" 10001 100 "''vip20''" "''VIP20''" ?inv "''gold''"]
  have 1: "calculate_shipping ''th'' 100 = Inr 25"
    using th c k by simp
  have 2: "calculate_tax ''th'' 100 = Inr 5"
    using th c k by simp
  from th' g k have "coupon ?inv = None \<longrightarrow>
      calculate_discount ?inv 10001 = (if (10001::real) > 3000 then 20 else 0, [])"
    by blast
  with n have 3: "calculate_discount ?inv 10001 = (20, [])"
    by simp
  have 4: "COUPON_RATE ''vip20'' = None"
    using th v k by simp
  have val: "validate (Some ?inv) = Inr ()"
    by (simp add: validate_simple_invoice)
  have sh: "calculate_shipping (country ?inv) 10001 = Inr 0"
    by (simp add: calculate_shipping_eq simple_invoice_def)
  have t: "calculate_tax (country ?inv) (10001 - 20) = Inr (49905 / 100)"
    by (simp add: calculate_tax_eq simple_invoice_def)
  have 5: "compute_total (Some ?inv) = Inr (1048005 / 100, [''Consider membership upgrade''])"
    using compute_total_valid [OF val subtotal_simple_invoice 3 sh t] th' g k
    by simp
  from c g v 1 2 3 4 5 show ?thesis by (simp add: simple_invoice_def)
qed

end
